theory Spec2Isabelle
  imports Complex_Main "HOL-Library.Word"
begin

section \<open>Influence lines of continuous beams: a model of the numerical core\<close>

text \<open>
  The C++ sources compute with \<^verbatim>\<open>double\<close> (and \<^verbatim>\<open>float\<close> for a few members).
  The model computes over \<^typ>\<open>real\<close>: rounding, NaN and infinities are not represented
  (nor the narrowing of a \<^verbatim>\<open>double\<close> argument to a \<^verbatim>\<open>float\<close> parameter), and a division
  by zero has HOL's value \<open>0\<close>.  Exhaustion of memory by an allocation is not
  represented either.  A \<^verbatim>\<open>std::vector\<close> is a list; \<^verbatim>\<open>v[i]\<close> is
  \<open>v ! i\<close>, which the theorems below use only at indices shown to be in range, except
  where an out-of-range read is itself the subject and is then an explicit outcome.
  Record fields carry a prefix where the source's member name is a single letter or is
  shared by two classes.
\<close>

subsection \<open>traitement::split\_by\_sign\<close>

text \<open>
  The loop of \<^verbatim>\<open>split_by_sign\<close> over \<^verbatim>\<open>input[1..]\<close>, with its three variables
  \<^verbatim>\<open>result\<close>, \<^verbatim>\<open>current_sublist\<close> and \<^verbatim>\<open>current_sign\<close> passed as state.
\<close>

fun split_by_sign_loop ::
  "real list \<Rightarrow> real list list \<Rightarrow> real list \<Rightarrow> bool \<Rightarrow> real list list \<times> real list" where
  "split_by_sign_loop [] result current_sublist current_sign = (result, current_sublist)"
| "split_by_sign_loop (x # xs) result current_sublist current_sign =
     (let element_sign = (x \<ge> 0) in
      if element_sign \<noteq> current_sign
      then split_by_sign_loop xs (result @ [current_sublist]) [x] element_sign
      else split_by_sign_loop xs result (current_sublist @ [x]) current_sign)"

definition split_by_sign :: "real list \<Rightarrow> real list list" where
  "split_by_sign input =
     (case input of
        [] \<Rightarrow> []
      | x # xs \<Rightarrow>
          (case split_by_sign_loop xs [] [x] (x \<ge> 0) of
             (result, current_sublist) \<Rightarrow>
               if current_sublist \<noteq> [] then result @ [current_sublist] else result))"

text \<open>
  What the specification asks of the runs: none is empty, each one is entirely
  non-negative or entirely negative, and neighbouring runs start with different signs
  (so no run can be extended).
\<close>

definition sign_runs :: "real list list \<Rightarrow> bool" where
  "sign_runs rs \<longleftrightarrow>
     (\<forall>r \<in> set rs. r \<noteq> [] \<and> ((\<forall>v \<in> set r. v \<ge> 0) \<or> (\<forall>v \<in> set r. v < 0))) \<and>
     (\<forall>i. Suc i < length rs \<longrightarrow> (hd (rs ! i) \<ge> 0) \<noteq> (hd (rs ! Suc i) \<ge> 0))"

subsection \<open>rapport\_focau: the focal ratios\<close>

record rapport_focau =
  rf_a :: "real list"
  rf_b :: "real list"
  rf_c :: "real list"
  nb_travee :: nat

text \<open>
  \<^verbatim>\<open>rapport_focau::phy\<close>: the loop \<^verbatim>\<open>for (i = 0; i < nb_travee; ++i)\<close> with the running
  value \<^verbatim>\<open>phy_premier\<close> and the output vector as state.  \<^verbatim>\<open>nb_travee\<close> is an \<^verbatim>\<open>int\<close>
  that the callers take from the size of a vector; a negative value would run neither
  loop, like 0, so the field is a natural number.
\<close>

definition phy_step :: "rapport_focau \<Rightarrow> nat \<Rightarrow> real \<times> real list \<Rightarrow> real \<times> real list" where
  "phy_step r i st =
     (case st of (phy_premier, liste_Phy) \<Rightarrow>
        (let phy_premier' =
               (if i = 0 then phy_premier
                else rf_b r ! i / (rf_a r ! i + rf_c r ! (i - 1) - rf_b r ! (i - 1) * phy_premier))
         in (phy_premier', liste_Phy @ [phy_premier'])))"

definition phy :: "rapport_focau \<Rightarrow> real list" where
  "phy r = snd (fold (phy_step r) [0..<nb_travee r] (0, []))"

text \<open>
  \<^verbatim>\<open>rapport_focau::phy_prime\<close>: the first loop runs \<^verbatim>\<open>i\<close> from \<^verbatim>\<open>nb_travee\<close> down to 1,
  the second one reads the computed vector backwards.  The source leaves
  \<^verbatim>\<open>phy_prime_premier\<close> uninitialised; its first iteration assigns 0 before any read, so
  the start value of the state is immaterial.
\<close>

definition phy_prime_step :: "rapport_focau \<Rightarrow> nat \<Rightarrow> real \<times> real list \<Rightarrow> real \<times> real list" where
  "phy_prime_step r i st =
     (case st of (phy_prime_premier, liste_phy_prime) \<Rightarrow>
        (let phy_prime_premier' =
               (if i = nb_travee r then 0
                else rf_b r ! (i - 1) /
                       (rf_c r ! (i - 1) + rf_a r ! i - rf_b r ! i * phy_prime_premier))
         in (phy_prime_premier', liste_phy_prime @ [phy_prime_premier'])))"

definition countdown :: "nat \<Rightarrow> nat list" where
  "countdown n = rev [1..<Suc n]"

definition phy_prime :: "rapport_focau \<Rightarrow> real list" where
  "phy_prime r =
     (let liste_phy_prime = snd (fold (phy_prime_step r) (countdown (nb_travee r)) (0, []))
      in map (\<lambda>i. liste_phy_prime ! (i - 1)) (countdown (nb_travee r)))"


subsection \<open>Errors\<close>

text \<open>
  Every \<^verbatim>\<open>throw std::invalid_argument\<close> of the constructors is a constructor of
  \<open>error\<close>, named after its message.  \<open>Length_error\<close> is the \<^verbatim>\<open>std::length_error\<close> that
  \<^verbatim>\<open>vector::reserve(division + 1)\<close> raises when \<^verbatim>\<open>division + 1\<close> is negative (the
  \<^verbatim>\<open>int\<close> converts to a \<^verbatim>\<open>size_t\<close> above \<^verbatim>\<open>max_size()\<close>).  \<open>Dimension_mismatch\<close>,
  \<open>Abscisses_non_triees\<close> and \<open>Hauteur_non_positive\<close> are the \<^verbatim>\<open>std::runtime_error\<close>s of
  \<^verbatim>\<open>traitement::trapeze\<close>.  \<open>Undefined_behaviour\<close>
  marks a read the C++ standard leaves undefined (\<^verbatim>\<open>back()\<close> of an empty vector, an
  index out of range); it is not an exception.
\<close>

datatype error =
    Taille_I_varier
  | Derniere_position
  | Position_superieure
  | Position_negative
  | Nombre_positions
  | Positions_non_croissantes
  | Dimensions_incoherentes
  | Nombre_non_positif
  | Length_error
  | Dimension_mismatch
  | Abscisses_non_triees
  | Hauteur_non_positive
  | Undefined_behaviour

definition is_validation_error :: "error \<Rightarrow> bool" where
  "is_validation_error e \<longleftrightarrow>
     e \<in> {Taille_I_varier, Derniere_position, Position_superieure, Position_negative,
          Nombre_positions, Positions_non_croissantes, Dimensions_incoherentes,
          Nombre_non_positif}"

subsection \<open>isostatique: the simply supported span\<close>

text \<open>
  The members \<^verbatim>\<open>E\<close>, \<^verbatim>\<open>I\<close>, \<^verbatim>\<open>L\<close>, \<^verbatim>\<open>I_varer\<close>, \<^verbatim>\<open>pos_I_varier\<close>, \<^verbatim>\<open>division\<close>.  The member
  \<^verbatim>\<open>abscisse\<close> caches \<^verbatim>\<open>alpha()\<close> and \<^verbatim>\<open>section\<close> is never read; neither is a field.
  \<^verbatim>\<open>division\<close> is an \<^verbatim>\<open>int\<close>, here an unbounded \<^typ>\<open>int\<close>.
\<close>

record isostatique =
  iso_E :: real
  iso_I :: real
  iso_I_varer :: "real list"
  iso_pos_I_varier :: "real list"
  iso_L :: real
  iso_division :: int

text \<open>\<^verbatim>\<open>alpha()\<close>: \<^verbatim>\<open>(L/division)*i\<close> for \<^verbatim>\<open>0 <= i < division\<close>, then \<^verbatim>\<open>L\<close> itself.\<close>

definition alpha :: "'a isostatique_scheme \<Rightarrow> real list" where
  "alpha s =
     map (\<lambda>i. (iso_L s / real_of_int (iso_division s)) * real i) [0..<nat (iso_division s)]
       @ [iso_L s]"

text \<open>
  The constant-inertia constructor validates nothing; it calls \<^verbatim>\<open>alpha()\<close>, whose
  \<^verbatim>\<open>reserve\<close> is the only place that can raise.  The test \<open>nb_division + 1 < 0\<close> is
  written on the unbounded integer: it is the source's test for every \<^verbatim>\<open>division\<close> below
  2147483647, the largest \<^verbatim>\<open>int\<close>; at that value the 32-bit sum of the source overflows
  and \<^verbatim>\<open>reserve\<close> throws.  The variable constructor leaves \<^verbatim>\<open>I\<close>
  uninitialised; no path reads it while \<^verbatim>\<open>I_varer\<close> is non-empty, and the model stores 0.
\<close>

definition isostatique_const :: "real \<Rightarrow> real \<Rightarrow> real \<Rightarrow> int \<Rightarrow> error + isostatique" where
  "isostatique_const longueur Young_module Inertia nb_division =
     (if nb_division + 1 < 0 then Inl Length_error
      else Inr \<lparr>iso_E = Young_module, iso_I = Inertia, iso_I_varer = [],
                iso_pos_I_varier = [], iso_L = longueur, iso_division = nb_division\<rparr>)"

definition normalise_inertia :: "real \<Rightarrow> real list \<Rightarrow> real list \<Rightarrow> real list \<times> real list" where
  "normalise_inertia longueur Inertia_vaier position_Inertia =
     (if length Inertia_vaier = 1
      then ([Inertia_vaier ! 0, Inertia_vaier ! 0], [0, longueur])
      else (Inertia_vaier, position_Inertia))"

definition isostatique_var ::
  "real \<Rightarrow> real \<Rightarrow> real list \<Rightarrow> real list \<Rightarrow> int \<Rightarrow> error + isostatique" where
  "isostatique_var longueur Young_module Inertia_vaier position_Inertia nb_division =
     (case normalise_inertia longueur Inertia_vaier position_Inertia of
        (I_varer, pos_I_varier) \<Rightarrow>
          if length I_varer \<noteq> length pos_I_varier then Inl Taille_I_varier
          else if pos_I_varier = [] then Inl Undefined_behaviour
          else if last pos_I_varier \<noteq> longueur then Inl Derniere_position
          else if nb_division + 1 < 0 then Inl Length_error
          else Inr \<lparr>iso_E = Young_module, iso_I = 0, iso_I_varer = I_varer,
                    iso_pos_I_varier = pos_I_varier, iso_L = longueur,
                    iso_division = nb_division\<rparr>)"

text \<open>
  \<^verbatim>\<open>T(sigma, abscisse)\<close>: both vectors are built together; the flag selects one.  In the
  branch \<^verbatim>\<open>sigma > L\<close> the values are \<^verbatim>\<open>division\<close> zeros and the abscissas are
  \<^verbatim>\<open>alpha()\<close>.
\<close>

definition T_valeurs :: "'a isostatique_scheme \<Rightarrow> real \<Rightarrow> real list" where
  "T_valeurs s sigma =
     (if sigma \<le> iso_L s
      then concat (map (\<lambda>i. if i < sigma then [- i / iso_L s]
                             else if i > sigma then [1 - i / iso_L s]
                             else if i = sigma then [- i / iso_L s, 1 - i / iso_L s]
                             else []) (alpha s))
      else replicate (nat (iso_division s)) 0)"

definition T_coordonne :: "'a isostatique_scheme \<Rightarrow> real \<Rightarrow> real list" where
  "T_coordonne s sigma =
     (if sigma \<le> iso_L s
      then concat (map (\<lambda>i. if i < sigma then [i]
                             else if i > sigma then [i]
                             else if i = sigma then [i, i]
                             else []) (alpha s))
      else alpha s)"

definition T :: "'a isostatique_scheme \<Rightarrow> real \<Rightarrow> bool \<Rightarrow> real list" where
  "T s sigma abscisse = (if abscisse then T_coordonne s sigma else T_valeurs s sigma)"

definition M :: "'a isostatique_scheme \<Rightarrow> real \<Rightarrow> real list" where
  "M s sigma =
     (if sigma \<le> iso_L s
      then concat (map (\<lambda>i. if i \<le> sigma then [i * (1 - sigma / iso_L s)]
                             else if i > sigma then [sigma * (1 - i / iso_L s)]
                             else []) (alpha s))
      else replicate (nat (iso_division s)) 0)"

text \<open>
  The lookup shared by the variable-inertia formulas: the first \<^verbatim>\<open>j < pos.size() - 1\<close>
  with \<^verbatim>\<open>pos[j] <= x <= pos[j+1]\<close>.  A constructed object has a non-empty table, so the
  unsigned \<^verbatim>\<open>size() - 1\<close> does not wrap.
\<close>

definition segment :: "real list \<Rightarrow> real \<Rightarrow> nat option" where
  "segment pos x = find (\<lambda>j. x \<ge> pos ! j \<and> x \<le> pos ! (j + 1)) [0..<length pos - 1]"

definition fonct_omega_prime :: "real \<Rightarrow> real \<Rightarrow> real \<Rightarrow> real \<Rightarrow> real" where
  "fonct_omega_prime x I L E = (- L / (6 * E * I)) * x * (1 - x / L) * (2 - x / L)"

definition fonct_omega_secon :: "real \<Rightarrow> real \<Rightarrow> real \<Rightarrow> real \<Rightarrow> real" where
  "fonct_omega_secon x I L E = (L / (6 * E * I) * x * (1 - x * x / (L * L)))"

definition omega_prime :: "'a isostatique_scheme \<Rightarrow> real list" where
  "omega_prime s =
     (let L = iso_L s; E = iso_E s in
      if iso_I_varer s = []
      then map (\<lambda>i. - i * (L - i) * (2 * L - i) / (6 * E * iso_I s * L)) (alpha s)
      else concat (map (\<lambda>i. case segment (iso_pos_I_varier s) i of
                               Some j \<Rightarrow> [fonct_omega_prime i (iso_I_varer s ! j) L E]
                             | None \<Rightarrow> []) (alpha s)))"

definition omega_second :: "'a isostatique_scheme \<Rightarrow> real list" where
  "omega_second s =
     (let L = iso_L s; E = iso_E s in
      if iso_I_varer s = []
      then map (\<lambda>i. i * (L - i) * (L + i) / (6 * E * iso_I s * L)) (alpha s)
      else concat (map (\<lambda>i. case segment (iso_pos_I_varier s) i of
                               Some j \<Rightarrow> [fonct_omega_secon i (iso_I_varer s ! j) L E]
                             | None \<Rightarrow> []) (alpha s)))"

text \<open>Rotation: one formula on each side of the load, with the inertia as a parameter.\<close>

definition ohm_formule :: "real \<Rightarrow> real \<Rightarrow> real \<Rightarrow> real \<Rightarrow> real \<Rightarrow> real" where
  "ohm_formule L E I_val sigma i =
     (if i \<le> sigma
      then ((L - i) * (L + i) - 3 * (L - sigma)\<^sup>2) * i / (6 * E * I_val * L)
      else if i > sigma
      then - (i * (2 * L - i) - 3 * sigma\<^sup>2) * (L - i) / (6 * E * I_val * L)
      else 0)"

definition fonct_OMEGA ::
  "real \<Rightarrow> real \<Rightarrow> real \<Rightarrow> real list \<Rightarrow> real list \<Rightarrow> real list \<Rightarrow> real list" where
  "fonct_OMEGA sigma L E alph pos_I_varier I_varer =
     (if sigma \<le> L
      then map (\<lambda>i. case segment pos_I_varier i of
                      Some j \<Rightarrow> ohm_formule L E (I_varer ! j) sigma i
                    | None \<Rightarrow> 0) alph
      else replicate (length alph) 0)"

definition OMEGA :: "'a isostatique_scheme \<Rightarrow> real \<Rightarrow> real list" where
  "OMEGA s sigma =
     (if iso_I_varer s = []
      then (if sigma \<le> iso_L s
            then map (ohm_formule (iso_L s) (iso_E s) (iso_I s) sigma) (alpha s)
            else replicate (length (alpha s)) 0)
      else fonct_OMEGA sigma (iso_L s) (iso_E s) (alpha s) (iso_pos_I_varier s) (iso_I_varer s))"

definition fleche_formule :: "real \<Rightarrow> real \<Rightarrow> real \<Rightarrow> real \<Rightarrow> real \<Rightarrow> real" where
  "fleche_formule L E I_val sigma i =
     (if i \<le> sigma
      then - (i * (L - sigma) / (6 * E * I_val * L)) * (sigma * (2 * L - sigma) - i\<^sup>2)
      else - (sigma * (L - i) / (6 * E * I_val * L)) * (i * (2 * L - i) - sigma\<^sup>2))"

definition fonct_V ::
  "real \<Rightarrow> real \<Rightarrow> real \<Rightarrow> real list \<Rightarrow> real list \<Rightarrow> real list \<Rightarrow> real list" where
  "fonct_V sigma L E alph pos_I_varier I_varer =
     (if sigma \<le> L
      then map (\<lambda>i. case segment pos_I_varier i of
                      Some j \<Rightarrow> fleche_formule L E (I_varer ! j) sigma i
                    | None \<Rightarrow> 0) alph
      else replicate (length alph) 0)"

definition V :: "'a isostatique_scheme \<Rightarrow> real \<Rightarrow> real list" where
  "V s sigma =
     (if iso_I_varer s = []
      then (if sigma \<le> iso_L s
            then map (fleche_formule (iso_L s) (iso_E s) (iso_I s) sigma) (alpha s)
            else replicate (length (alpha s)) 0)
      else fonct_V sigma (iso_L s) (iso_E s) (alpha s) (iso_pos_I_varier s) (iso_I_varer s))"

text \<open>The public tables: one row per load position of the grid.\<close>

definition effort_tranchant :: "'a isostatique_scheme \<Rightarrow> real list list" where
  "effort_tranchant s = map (\<lambda>i. T s i False) (alpha s)"

definition abscisse_effort_tranchant :: "'a isostatique_scheme \<Rightarrow> real list list" where
  "abscisse_effort_tranchant s = map (\<lambda>i. T s i True) (alpha s)"

definition moment_flechissant :: "'a isostatique_scheme \<Rightarrow> real list list" where
  "moment_flechissant s = map (M s) (alpha s)"

definition rotation :: "'a isostatique_scheme \<Rightarrow> real list list" where
  "rotation s = map (OMEGA s) (alpha s)"

definition fleche :: "'a isostatique_scheme \<Rightarrow> real list list" where
  "fleche s = map (V s) (alpha s)"

text \<open>
  The influence function of the bending moment as the specification writes it, with the
  observation point and the load position as two arguments.
\<close>

definition moment_at :: "real \<Rightarrow> real \<Rightarrow> real \<Rightarrow> real" where
  "moment_at L x sigma = (if x \<le> sigma then x * (1 - sigma / L) else sigma * (1 - x / L))"

subsection \<open>travee: a span with its flexibility coefficients\<close>

text \<open>
  \<^verbatim>\<open>travee\<close> derives from \<^verbatim>\<open>isostatique\<close> and keeps its own copies \<^verbatim>\<open>Young\<close>,
  \<^verbatim>\<open>longueur\<close>, \<^verbatim>\<open>Inertie\<close>, \<^verbatim>\<open>pos_I_varier\<close>, \<^verbatim>\<open>I_varer\<close> (the strings \<^verbatim>\<open>Id\<close> and
  \<^verbatim>\<open>materiau\<close> are empty and unused).  The copies of the two tables are initialised from
  the constructor's arguments, not from the normalised tables of the base class.
\<close>

record travee = isostatique +
  Young :: real
  longueur :: real
  Inertie :: real
  tr_pos_I_varier :: "real list"
  tr_I_varer :: "real list"

definition travee_const :: "real \<Rightarrow> real \<Rightarrow> real \<Rightarrow> int \<Rightarrow> error + travee" where
  "travee_const L E I nb_division =
     (case isostatique_const L E I nb_division of
        Inl e \<Rightarrow> Inl e
      | Inr base \<Rightarrow>
          Inr \<lparr>iso_E = iso_E base, iso_I = iso_I base, iso_I_varer = iso_I_varer base,
                iso_pos_I_varier = iso_pos_I_varier base, iso_L = iso_L base,
                iso_division = iso_division base,
                Young = E, longueur = L, Inertie = I, tr_pos_I_varier = [], tr_I_varer = []\<rparr>)"

text \<open>The first loop of the variable constructor: every position must lie in \<open>[0, L]\<close>.\<close>

fun verifier_positions :: "real \<Rightarrow> real list \<Rightarrow> error option" where
  "verifier_positions L [] = None"
| "verifier_positions L (p # ps) =
     (if p > L then Some Position_superieure
      else if p < 0 then Some Position_negative
      else verifier_positions L ps)"

text \<open>The last loop: \<^verbatim>\<open>pos[i] >= pos[i+1]\<close> for some \<^verbatim>\<open>i < size() - 1\<close> is an error.\<close>

fun strictement_croissantes :: "real list \<Rightarrow> bool" where
  "strictement_croissantes [] = True"
| "strictement_croissantes [p] = True"
| "strictement_croissantes (p # q # ps) = (\<not> p \<ge> q \<and> strictement_croissantes (q # ps))"

text \<open>
  The base-class constructor runs first, then the three checks on the arguments.  The
  member \<^verbatim>\<open>Inertie\<close> stays uninitialised (0 here; it is read only while \<^verbatim>\<open>I_varer\<close> is
  empty).  The last loop would wrap \<^verbatim>\<open>size() - 1\<close> on an empty position vector.
\<close>

definition travee_var ::
  "real \<Rightarrow> real \<Rightarrow> real list \<Rightarrow> real list \<Rightarrow> int \<Rightarrow> error + travee" where
  "travee_var L E I pos_I_varier nb_division =
     (case isostatique_var L E I pos_I_varier nb_division of
        Inl e \<Rightarrow> Inl e
      | Inr base \<Rightarrow>
          (case verifier_positions L pos_I_varier of
             Some e \<Rightarrow> Inl e
           | None \<Rightarrow>
               if length pos_I_varier \<noteq> length I then Inl Nombre_positions
               else if pos_I_varier = [] then Inl Undefined_behaviour
               else if \<not> strictement_croissantes pos_I_varier
               then Inl Positions_non_croissantes
               else Inr \<lparr>iso_E = iso_E base, iso_I = iso_I base,
                         iso_I_varer = iso_I_varer base,
                         iso_pos_I_varier = iso_pos_I_varier base, iso_L = iso_L base,
                         iso_division = iso_division base,
                         Young = E, longueur = L, Inertie = 0,
                         tr_pos_I_varier = pos_I_varier, tr_I_varer = I\<rparr>))"

text \<open>
  \<^verbatim>\<open>a()\<close>, \<^verbatim>\<open>b()\<close>, \<^verbatim>\<open>c()\<close>.  The sums run over \<^verbatim>\<open>i < pos_I_varier.size() - 1\<close> on the
  copies kept by \<^verbatim>\<open>travee\<close>.
\<close>

definition travee_a :: "travee \<Rightarrow> real" where
  "travee_a t =
     (if tr_I_varer t = [] then longueur t / (3 * Young t * Inertie t)
      else
        (let b = (- longueur t / (3 * Young t));
             a = fold (\<lambda>i a. a + (1 / tr_I_varer t ! i) *
                        ((1 - tr_pos_I_varier t ! (i + 1) / longueur t) ^ 3
                          - (1 - tr_pos_I_varier t ! i / longueur t) ^ 3))
                      [0..<length (tr_pos_I_varier t) - 1] 0
         in a * b))"

definition B :: "real \<Rightarrow> real \<Rightarrow> real" where
  "B x l = x\<^sup>2 / (2 * l) - x ^ 3 / (3 * l\<^sup>2)"

definition travee_b :: "travee \<Rightarrow> real" where
  "travee_b t =
     (if tr_I_varer t = [] then longueur t / (6 * Young t * Inertie t)
      else
        (let a = 1 / Young t;
             b = fold (\<lambda>i b. b + (1 / tr_I_varer t ! i) *
                        (B (tr_pos_I_varier t ! (i + 1)) (longueur t)
                          - B (tr_pos_I_varier t ! i) (longueur t)))
                      [0..<length (tr_pos_I_varier t) - 1] 0
         in b * a))"

definition travee_c :: "travee \<Rightarrow> real" where
  "travee_c t =
     (if tr_I_varer t = [] then longueur t / (3 * Young t * Inertie t)
      else
        (let a = 1 / (Young t * (longueur t)\<^sup>2);
             c = fold (\<lambda>i c. c + (1 / tr_I_varer t ! i) *
                        ((tr_pos_I_varier t ! (i + 1)) ^ 3 - (tr_pos_I_varier t ! i) ^ 3))
                      [0..<length (tr_pos_I_varier t) - 1] 0
         in c * a))"

subsection \<open>traitement::trapeze\<close>

text \<open>
  The summation loop \<^verbatim>\<open>for (size_t i = 0; i < x.size() - 1; ++i)\<close>.  The bound is
  computed in \<^verbatim>\<open>size_t\<close>, a 64-bit word, so it wraps for an empty vector.  Each read
  \<^verbatim>\<open>x[i+1]\<close>, \<^verbatim>\<open>x[i]\<close>, \<^verbatim>\<open>y[i]\<close>, \<^verbatim>\<open>y[i+1]\<close> outside the vector ends the run with
  \<open>Undefined_behaviour\<close>.  The state is \<^verbatim>\<open>aire\<close> and \<^verbatim>\<open>erreur_accumulee\<close>.
\<close>

definition borne_boucle :: "nat \<Rightarrow> nat" where
  "borne_boucle n = unat ((word_of_nat n :: 64 word) - 1)"

function trapeze_loop ::
  "real list \<Rightarrow> real list \<Rightarrow> nat \<Rightarrow> nat \<Rightarrow> real \<Rightarrow> real \<Rightarrow> error + real \<times> real" where
  "trapeze_loop x y borne i aire erreur_accumulee =
     (if i < borne then
        (if \<not> i + 1 < length x then Inl Undefined_behaviour
         else
           (let hauteur = x ! (i + 1) - x ! i in
            if hauteur \<le> 0 then Inl Hauteur_non_positive
            else if \<not> i + 1 < length y then Inl Undefined_behaviour
            else
              (let base1 = y ! i;
                   base2 = y ! (i + 1);
                   aire_trapeze = (base1 + base2) * hauteur / 2;
                   temp = aire + aire_trapeze
               in trapeze_loop x y borne (i + 1) temp
                    (erreur_accumulee + ((aire - temp) + aire_trapeze)))))
      else Inr (aire, erreur_accumulee))"
  by pat_completeness auto
termination
  by (relation "measure (\<lambda>(x, y, borne, i, aire, e). borne - i)") auto

declare trapeze_loop.simps [simp del]

text \<open>
  \<^verbatim>\<open>trapeze\<close>: the two validations, the loop, the final correction.  The closing test
  \<^verbatim>\<open>isnan(aire) || isinf(aire)\<close> cannot fire on a real number and has no branch here.
\<close>

definition trapeze :: "real list \<Rightarrow> real list \<Rightarrow> error + real" where
  "trapeze x y =
     (if length x \<noteq> length y then Inl Dimension_mismatch
      else if \<not> sorted x then Inl Abscisses_non_triees
      else
        (case trapeze_loop x y (borne_boucle (length x)) 0 0 0 of
           Inl e \<Rightarrow> Inl e
         | Inr (aire, erreur_accumulee) \<Rightarrow> Inr (aire + erreur_accumulee)))"

subsection \<open>hyperstatique: the continuous beam\<close>

text \<open>
  The inputs of the two constructors and the vector of spans built by
  \<^verbatim>\<open>mise_en_place\<close>.  \<^verbatim>\<open>I_tr\<close> is empty for the variable-inertia constructor, \<^verbatim>\<open>I_var\<close> and
  \<^verbatim>\<open>pos_I_var\<close> are null pointers (\<open>None\<close>) for the constant one.  Every other member is
  a cache filled once by \<^verbatim>\<open>initialiser_donnees\<close> from the method of the same purpose; the
  model uses the methods themselves.  The abscissa tables (\<^verbatim>\<open>abscisse_des_point\<close>,
  \<^verbatim>\<open>Pour_T_hyp\<close>), the support-moment and reaction curves and the exports are outside
  the model.
\<close>

record hyperstatique =
  L_tr :: "real list"
  E_tr :: "real list"
  I_tr :: "real list"
  division :: int
  nombre_travee :: nat
  I_var :: "real list list option"
  pos_I_var :: "real list list option"
  iso_cache :: "travee list"

definition interpolate :: "real \<Rightarrow> real \<Rightarrow> real \<Rightarrow> real \<Rightarrow> real" where
  "interpolate m n x l = m * (1 - x / l) + n * x / l"

definition calcul_rotation :: "real \<Rightarrow> real \<Rightarrow> real \<Rightarrow> real \<Rightarrow> real \<Rightarrow> real \<Rightarrow> real" where
  "calcul_rotation m n x l E I =
     - m * (2 * (l * l) - 6 * l * x + 3 * (x * x)) / (6 * E * I * l)
     - n * ((l * l) - 3 * (x * x)) / (6 * E * I * l)"

definition calcul_fleche :: "real \<Rightarrow> real \<Rightarrow> real \<Rightarrow> real \<Rightarrow> real \<Rightarrow> real \<Rightarrow> real" where
  "calcul_fleche m n x l E I =
     - m * x * (l - x) * (2 * l - x) / (6 * E * I * l)
     - n * x * (l - x) * (l + x) / (6 * E * I * l)"

definition interpolate_effort_tranchant :: "real \<Rightarrow> real \<Rightarrow> real \<Rightarrow> real" where
  "interpolate_effort_tranchant m n l = (- m + n) / l"

text \<open>
  \<^verbatim>\<open>mise_en_place\<close>: one \<^verbatim>\<open>emplace_back\<close> per span, in order; the first constructor that
  throws ends the construction.
\<close>

fun construire_travees :: "(nat \<Rightarrow> error + travee) \<Rightarrow> nat list \<Rightarrow> error + travee list" where
  "construire_travees f [] = Inr []"
| "construire_travees f (i # is) =
     (case f i of
        Inl e \<Rightarrow> Inl e
      | Inr t \<Rightarrow> (case construire_travees f is of Inl e \<Rightarrow> Inl e | Inr ts \<Rightarrow> Inr (t # ts)))"

definition mise_en_place :: "hyperstatique \<Rightarrow> error + travee list" where
  "mise_en_place h =
     construire_travees
       (\<lambda>i. case (I_var h, pos_I_var h) of
               (Some Iv, Some pv) \<Rightarrow>
                 travee_var (L_tr h ! i) (E_tr h ! i) (Iv ! i) (pv ! i) (division h)
             | _ \<Rightarrow> travee_const (L_tr h ! i) (E_tr h ! i) (I_tr h ! i) (division h))
       [0..<nombre_travee h]"

definition initialiser_donnees :: "hyperstatique \<Rightarrow> error + hyperstatique" where
  "initialiser_donnees h =
     (case mise_en_place h of Inl e \<Rightarrow> Inl e | Inr ts \<Rightarrow> Inr (h\<lparr>iso_cache := ts\<rparr>))"

text \<open>
  The constructors.  \<^verbatim>\<open>nombre_travee\<close> is the size of the vector of lengths, so the first
  comparison of the size test is always false.
\<close>

definition hyperstatique_const ::
  "real list \<Rightarrow> real list \<Rightarrow> real list \<Rightarrow> int \<Rightarrow> error + hyperstatique" where
  "hyperstatique_const tous_longueur_travee tous_young_module tous_Inertie nb_division =
     (let n = length tous_longueur_travee in
      if length tous_longueur_travee \<noteq> n \<or> length tous_young_module \<noteq> n
           \<or> length tous_Inertie \<noteq> n
      then Inl Dimensions_incoherentes
      else if n \<le> 0 \<or> nb_division \<le> 0 then Inl Nombre_non_positif
      else initialiser_donnees
             \<lparr>L_tr = tous_longueur_travee, E_tr = tous_young_module, I_tr = tous_Inertie,
              division = nb_division, nombre_travee = n, I_var = None, pos_I_var = None,
              iso_cache = []\<rparr>)"

text \<open>
  The variable-inertia constructor replaces every one-value table by the two-point table
  \<open>{a, a}\<close> at \<open>{0, L}\<close> before it builds the spans.  A mismatch between the sizes of the
  two tables of a span is only reported on \<^verbatim>\<open>std::cerr\<close>.  The spans receive the lengths
  as \<^verbatim>\<open>float\<close> while the normalised table keeps the \<^verbatim>\<open>double\<close>; over the reals the two
  are the same number.
\<close>

definition hyperstatique_var ::
  "real list \<Rightarrow> real list \<Rightarrow> real list list \<Rightarrow> real list list \<Rightarrow> int
     \<Rightarrow> error + hyperstatique" where
  "hyperstatique_var tous_longueur_travee tous_young_module tous_Inertie tous_x_coords nb_division =
     (let n = length tous_longueur_travee in
      if length tous_longueur_travee \<noteq> n \<or> length tous_young_module \<noteq> n
           \<or> length tous_Inertie \<noteq> n \<or> length tous_x_coords \<noteq> n
      then Inl Dimensions_incoherentes
      else
        (let Iv = map (\<lambda>i. if length (tous_Inertie ! i) = 1
                             then [tous_Inertie ! i ! 0, tous_Inertie ! i ! 0]
                             else tous_Inertie ! i) [0..<length tous_Inertie];
             pv = map (\<lambda>i. if length (tous_Inertie ! i) = 1
                             then [0, tous_longueur_travee ! i]
                             else tous_x_coords ! i) [0..<length tous_Inertie]
         in if n \<le> 0 \<or> nb_division \<le> 0 then Inl Nombre_non_positif
            else initialiser_donnees
                   \<lparr>L_tr = tous_longueur_travee, E_tr = tous_young_module, I_tr = [],
                    division = nb_division, nombre_travee = n, I_var = Some Iv,
                    pos_I_var = Some pv, iso_cache = []\<rparr>))"

text \<open>The per-span tables collected from the spans.\<close>

definition abscisse :: "hyperstatique \<Rightarrow> real list list" where
  "abscisse h = map alpha (iso_cache h)"

definition Mu_total :: "hyperstatique \<Rightarrow> real list list list" where
  "Mu_total h = map moment_flechissant (iso_cache h)"

definition W_total :: "hyperstatique \<Rightarrow> real list list list" where
  "W_total h = map rotation (iso_cache h)"

definition V_total :: "hyperstatique \<Rightarrow> real list list list" where
  "V_total h = map fleche (iso_cache h)"

definition T_total :: "hyperstatique \<Rightarrow> real list list list" where
  "T_total h = map effort_tranchant (iso_cache h)"

definition a_tr :: "hyperstatique \<Rightarrow> real list" where
  "a_tr h = map travee_a (iso_cache h)"

definition b_tr :: "hyperstatique \<Rightarrow> real list" where
  "b_tr h = map travee_b (iso_cache h)"

definition c_tr :: "hyperstatique \<Rightarrow> real list" where
  "c_tr h = map travee_c (iso_cache h)"

definition omega_prime_tr :: "hyperstatique \<Rightarrow> real list list" where
  "omega_prime_tr h = map omega_prime (iso_cache h)"

definition omega_second_tr :: "hyperstatique \<Rightarrow> real list list" where
  "omega_second_tr h = map omega_second (iso_cache h)"

definition rap :: "hyperstatique \<Rightarrow> rapport_focau" where
  "rap h = \<lparr>rf_a = a_tr h, rf_b = b_tr h, rf_c = c_tr h, nb_travee = nombre_travee h\<rparr>"

definition hyp_phy :: "hyperstatique \<Rightarrow> real list" where
  "hyp_phy h = phy (rap h)"

definition hyp_phy_prime :: "hyperstatique \<Rightarrow> real list" where
  "hyp_phy_prime h = phy_prime (rap h)"

text \<open>The index range \<^verbatim>\<open>for (int j = 0; j <= division; ++j)\<close>.\<close>

definition positions :: "hyperstatique \<Rightarrow> nat list" where
  "positions h = [0..<nat (division h + 1)]"

definition moment_au_appuit_travee_charger_gauche :: "hyperstatique \<Rightarrow> real list list" where
  "moment_au_appuit_travee_charger_gauche h =
     map (\<lambda>i. map (\<lambda>j.
            (let Om_prime = omega_prime_tr h ! i ! j;
                 Om_second = omega_second_tr h ! i ! j;
                 phyVal = hyp_phy h ! i;
                 phyPrimeVal = hyp_phy_prime h ! i
             in (phyVal / b_tr h ! i) *
                  ((Om_prime + Om_second * phyPrimeVal) / (1 - phyVal * phyPrimeVal))))
          (positions h)) [0..<nombre_travee h]"

definition moment_au_appuit_travee_charger_droite :: "hyperstatique \<Rightarrow> real list list" where
  "moment_au_appuit_travee_charger_droite h =
     map (\<lambda>i. map (\<lambda>j.
            (let Om_prime = omega_prime_tr h ! i ! j;
                 Om_second = omega_second_tr h ! i ! j;
                 phyVal = hyp_phy h ! i;
                 phyPrimeVal = hyp_phy_prime h ! i
             in - (phyPrimeVal / b_tr h ! i) *
                  ((Om_prime * phyVal + Om_second) / (1 - phyVal * phyPrimeVal))))
          (positions h)) [0..<nombre_travee h]"

text \<open>\<^verbatim>\<open>prod_list(liste, debut, fin)\<close>: the product over \<^verbatim>\<open>debut <= a <= fin\<close>, both \<^verbatim>\<open>int\<close>.\<close>

definition prod_list :: "real list \<Rightarrow> int \<Rightarrow> int \<Rightarrow> real" where
  "prod_list liste debut fin = fold (\<lambda>a resultat. resultat * liste ! nat a) [debut..fin] 1"

definition m_appuis_gauche :: "hyperstatique \<Rightarrow> nat \<Rightarrow> real list list" where
  "m_appuis_gauche h index_travee =
     map (\<lambda>i. (let p = prod_list (hyp_phy h) (int i) (int index_travee - 1)
               in map (\<lambda>j. (- 1) powi (int index_travee - int i) * p * j)
                    (moment_au_appuit_travee_charger_gauche h ! index_travee)))
       [0..<index_travee + 1]"

definition m_appuis_droite :: "hyperstatique \<Rightarrow> nat \<Rightarrow> real list list" where
  "m_appuis_droite h index_travee =
     map (\<lambda>g. (let p = prod_list (hyp_phy_prime h) (int index_travee + 1) (int g)
               in map (\<lambda>j. (- 1) powi (int index_travee - int g) * p * j)
                    (moment_au_appuit_travee_charger_droite h ! index_travee)))
       [index_travee..<nombre_travee h]"

definition tr_G_D :: "hyperstatique \<Rightarrow> real list list list" where
  "tr_G_D h = map (\<lambda>i. m_appuis_gauche h i @ m_appuis_droite h i) [0..<nombre_travee h]"

text \<open>
  \<^verbatim>\<open>M_flechissant\<close>.  The tasks started with \<^verbatim>\<open>std::async\<close> are joined in the order of
  the spans and share no mutable state; the result is the list of their results.
  \<open>M_flechissant_section\<close> is the body of the loop over the sections of span
  \<open>index_travee\<close>: for the \<open>k\<close>-th section the row \<^verbatim>\<open>hyp_mu\<close> holds one entry per loaded
  span \<open>i\<close> and position \<open>j\<close>, in that order.
\<close>

definition M_flechissant_section :: "hyperstatique \<Rightarrow> nat \<Rightarrow> nat \<Rightarrow> real list" where
  "M_flechissant_section h index_travee k =
     (let travee_length = L_tr h ! index_travee;
          section = abscisse h ! index_travee ! k;
          Mut = Mu_total h ! index_travee ! k
      in concat (map (\<lambda>i. map (\<lambda>j.
            (let moment_interpolation =
                   interpolate (tr_G_D h ! i ! index_travee ! j)
                     (tr_G_D h ! i ! (index_travee + 1) ! j) section travee_length
             in if index_travee = i then Mut ! j + moment_interpolation
                else moment_interpolation))
           (positions h)) [0..<nombre_travee h]))"

text \<open>
  The reads of \<^verbatim>\<open>M_flechissant\<close> are unchecked \<^verbatim>\<open>operator[]\<close> calls.  For the entry of
  span \<open>index_travee\<close>, section \<open>k\<close>, loaded span \<open>i\<close> and position \<open>j\<close> they are
  \<^verbatim>\<open>(*L_tr)[index_travee]\<close>, \<^verbatim>\<open>(*Mu_iso_total)[index_travee][k]\<close>,
  \<^verbatim>\<open>(*GAUCHE_DROITE)[i][index_travee][j]\<close>, \<^verbatim>\<open>(*GAUCHE_DROITE)[i][index_travee + 1][j]\<close>
  and, in the loaded span only, \<^verbatim>\<open>Mut[j]\<close>.  \<open>lectures_dans_bornes\<close> says that each of them
  is within its vector; outside it the source has undefined behaviour and
  \<open>M_flechissant_section\<close> says nothing about the program.
\<close>

definition lectures_dans_bornes :: "hyperstatique \<Rightarrow> nat \<Rightarrow> nat \<Rightarrow> nat \<Rightarrow> nat \<Rightarrow> bool" where
  "lectures_dans_bornes h index_travee k i j \<longleftrightarrow>
     index_travee < length (L_tr h) \<and>
     index_travee < length (abscisse h) \<and> k < length (abscisse h ! index_travee) \<and>
     index_travee < length (Mu_total h) \<and> k < length (Mu_total h ! index_travee) \<and>
     i < length (tr_G_D h) \<and> index_travee + 1 < length (tr_G_D h ! i) \<and>
     j < length (tr_G_D h ! i ! index_travee) \<and>
     j < length (tr_G_D h ! i ! (index_travee + 1)) \<and>
     (index_travee = i \<longrightarrow> j < length (Mu_total h ! index_travee ! k))"

definition M_flechissant :: "hyperstatique \<Rightarrow> real list list list" where
  "M_flechissant h =
     map (\<lambda>index_travee.
        map (M_flechissant_section h index_travee)
          [0..<length (abscisse h ! index_travee)])
       [0..<nombre_travee h]"

text \<open>
  The lookup of \<^verbatim>\<open>travee_I\<close> inside \<^verbatim>\<open>W_rotaion\<close> and \<^verbatim>\<open>V_fleche\<close>: only when \<^verbatim>\<open>I_tr\<close> is
  empty, every segment containing the abscissa overwrites the value (no \<^verbatim>\<open>break\<close>), and
  the value survives from one iteration to the next.  The tables are read through the
  pointers \<^verbatim>\<open>I_var\<close>, \<^verbatim>\<open>pos_I_var\<close>, which are set whenever \<^verbatim>\<open>I_tr\<close> is empty.
  \<open>W_rotaion_section\<close> and \<open>V_fleche_section\<close> are the bodies of the loops over the
  sections; they take the current \<^verbatim>\<open>travee_I\<close> and return it with the row.
\<close>

definition chercher_inertie :: "hyperstatique \<Rightarrow> nat \<Rightarrow> nat \<Rightarrow> real \<Rightarrow> real" where
  "chercher_inertie h index_travee j travee_I =
     (if I_tr h = [] then
        (case (I_var h, pos_I_var h) of
           (Some Iv, Some pv) \<Rightarrow>
             fold (\<lambda>k tI. if pv ! index_travee ! k \<le> abscisse h ! index_travee ! j
                              \<and> abscisse h ! index_travee ! j \<le> pv ! index_travee ! (k + 1)
                           then Iv ! index_travee ! k else tI)
               [0..<length (pv ! index_travee) - 1] travee_I
         | _ \<Rightarrow> travee_I)
      else travee_I)"

definition W_rotaion_section ::
  "hyperstatique \<Rightarrow> nat \<Rightarrow> nat \<Rightarrow> real \<Rightarrow> real \<times> real list" where
  "W_rotaion_section h index_travee section travee_I =
     (let Rot = W_total h ! index_travee ! section;
          travee_length = L_tr h ! index_travee;
          travee_E = E_tr h ! index_travee
      in fold (\<lambda>i (tI, hyp_rot).
           if index_travee = i
           then fold (\<lambda>j (tI, hyp_rot).
                  (let tI' = chercher_inertie h index_travee j tI;
                       rotation_val =
                         calcul_rotation (tr_G_D h ! i ! index_travee ! j)
                           (tr_G_D h ! i ! (index_travee + 1) ! j)
                           (abscisse h ! index_travee ! j) travee_length travee_E tI'
                   in (tI', hyp_rot @ [Rot ! j + rotation_val])))
                 (positions h) (tI, hyp_rot)
           else (tI, hyp_rot @ map (\<lambda>j.
                   calcul_rotation (tr_G_D h ! i ! index_travee ! j)
                     (tr_G_D h ! i ! (index_travee + 1) ! j)
                     (abscisse h ! index_travee ! j) travee_length travee_E tI)
                   (positions h)))
         [0..<nombre_travee h] (travee_I, []))"

definition W_rotaion :: "hyperstatique \<Rightarrow> real list list list" where
  "W_rotaion h =
     map (\<lambda>index_travee.
        snd (fold (\<lambda>section (tI, rot_travee).
               (case W_rotaion_section h index_travee section tI of
                  (tI', hyp_rot) \<Rightarrow> (tI', rot_travee @ [hyp_rot])))
             (positions h)
             (if I_tr h = [] then 0 else I_tr h ! index_travee, [])))
       [0..<nombre_travee h]"

definition V_fleche_section ::
  "hyperstatique \<Rightarrow> nat \<Rightarrow> nat \<Rightarrow> real \<Rightarrow> real \<times> real list" where
  "V_fleche_section h index_travee section travee_I =
     (let Rot = V_total h ! index_travee ! section;
          travee_length = L_tr h ! index_travee;
          travee_E = E_tr h ! index_travee
      in fold (\<lambda>i. fold (\<lambda>j (tI, hyp_rot).
                  (let tI' = chercher_inertie h index_travee j tI;
                       fleche_val =
                         calcul_fleche (tr_G_D h ! i ! index_travee ! j)
                           (tr_G_D h ! i ! (index_travee + 1) ! j)
                           (abscisse h ! index_travee ! j) travee_length travee_E tI'
                   in (tI', hyp_rot @ [if index_travee = i then Rot ! j + fleche_val
                                        else fleche_val])))
                 (positions h))
         [0..<nombre_travee h] (travee_I, []))"

definition V_fleche :: "hyperstatique \<Rightarrow> real list list list" where
  "V_fleche h =
     map (\<lambda>index_travee.
        snd (fold (\<lambda>section (tI, rot_travee).
               (case V_fleche_section h index_travee section tI of
                  (tI', hyp_rot) \<Rightarrow> (tI', rot_travee @ [hyp_rot])))
             (positions h)
             (if I_tr h = [] then 0 else I_tr h ! index_travee, [])))
       [0..<nombre_travee h]"

text \<open>
  \<^verbatim>\<open>T_effort_tranchant(false)\<close>: the values, with \<open>T_effort_tranchant_section\<close> the body
  of the loop over the sections.  In the loaded span the counter \<^verbatim>\<open>compteur\<close> walks
  through the isostatic row, which has two samples at the load.
\<close>

definition T_effort_tranchant_section :: "hyperstatique \<Rightarrow> nat \<Rightarrow> nat \<Rightarrow> real list" where
  "T_effort_tranchant_section h index_travee k =
     (let section = abscisse h ! index_travee ! k;
          T = T_total h ! index_travee ! k;
          travee_length = L_tr h ! index_travee
      in concat (map (\<lambda>i.
           if index_travee = i
           then snd (fold (\<lambda>j (compteur, hyp_T).
                  (let moment_interpolation =
                         interpolate_effort_tranchant (tr_G_D h ! i ! index_travee ! j)
                           (tr_G_D h ! i ! (index_travee + 1) ! j) travee_length
                   in if section = abscisse h ! index_travee ! j
                      then (compteur + 2,
                            hyp_T @ [T ! compteur + moment_interpolation,
                                     T ! (compteur + 1) + moment_interpolation])
                      else (compteur + 1, hyp_T @ [T ! compteur + moment_interpolation])))
                 (positions h) (0::nat, []))
           else map (\<lambda>j. interpolate_effort_tranchant (tr_G_D h ! i ! index_travee ! j)
                           (tr_G_D h ! i ! (index_travee + 1) ! j) travee_length)
                  (positions h))
         [0..<nombre_travee h]))"

definition T_effort_tranchant :: "hyperstatique \<Rightarrow> real list list list" where
  "T_effort_tranchant h =
     map (\<lambda>index_travee.
        map (T_effort_tranchant_section h index_travee)
          [0..<length (abscisse h ! index_travee)])
       [0..<nombre_travee h]"

text \<open>
  Two instances used to exercise the statements below, as the constant-inertia
  constructor builds them: the single span of the regression scenario (\<open>L = 5\<close>,
  \<open>E = I = 1\<close>, four divisions), and two equal spans of length 10 with \<open>E = I = 1\<close>,
  each divided in two.
\<close>

definition travee_simple :: travee where
  "travee_simple =
     \<lparr>iso_E = 1, iso_I = 1, iso_I_varer = [], iso_pos_I_varier = [], iso_L = 5,
      iso_division = 4, Young = 1, longueur = 5, Inertie = 1,
      tr_pos_I_varier = [], tr_I_varer = []\<rparr>"

definition poutre_simple :: hyperstatique where
  "poutre_simple =
     \<lparr>L_tr = [5], E_tr = [1], I_tr = [1], division = 4, nombre_travee = 1,
      I_var = None, pos_I_var = None, iso_cache = [travee_simple]\<rparr>"

definition travee_exemple :: travee where
  "travee_exemple =
     \<lparr>iso_E = 1, iso_I = 1, iso_I_varer = [], iso_pos_I_varier = [], iso_L = 10,
      iso_division = 2, Young = 1, longueur = 10, Inertie = 1,
      tr_pos_I_varier = [], tr_I_varer = []\<rparr>"

definition poutre_exemple :: hyperstatique where
  "poutre_exemple =
     \<lparr>L_tr = [10, 10], E_tr = [1, 1], I_tr = [1, 1], division = 2, nombre_travee = 2,
      I_var = None, pos_I_var = None, iso_cache = [travee_exemple, travee_exemple]\<rparr>"

section \<open>Properties\<close>

subsection \<open>split\_by\_sign\<close>

lemma one_sign_snoc:
  assumes "cur \<noteq> []" and "(\<forall>v \<in> set cur. v \<ge> 0) \<or> (\<forall>v \<in> set cur. v < 0)"
    and "(x \<ge> 0) = (hd cur \<ge> (0::real))"
  shows "(\<forall>v \<in> set (cur @ [x]). v \<ge> 0) \<or> (\<forall>v \<in> set (cur @ [x]). v < 0)"
proof (cases "hd cur \<ge> 0")
  case True
  have "hd cur \<in> set cur" using assms(1) by simp
  with True assms(2) have "\<forall>v \<in> set cur. v \<ge> 0" by force
  moreover have "x \<ge> 0" using True assms(3) by blast
  ultimately show ?thesis by simp
next
  case False
  have "hd cur \<in> set cur" using assms(1) by simp
  with False assms(2) have "\<forall>v \<in> set cur. v < 0" by force
  moreover have "x < 0" using False assms(3) by force
  ultimately show ?thesis by simp
qed

lemma sign_runs_snoc_same:
  assumes "sign_runs (rs @ [cur])" "cur \<noteq> []" "(x \<ge> 0) = (hd cur \<ge> 0)"
  shows "sign_runs (rs @ [cur @ [x]])"
proof -
  from assms(1) have runs: "\<forall>r \<in> set rs. r \<noteq> [] \<and> ((\<forall>v \<in> set r. v \<ge> 0) \<or> (\<forall>v \<in> set r. v < 0))"
    and cur1: "(\<forall>v \<in> set cur. v \<ge> 0) \<or> (\<forall>v \<in> set cur. v < 0)"
    and adj: "\<forall>i. Suc i < length (rs @ [cur]) \<longrightarrow>
                (hd ((rs @ [cur]) ! i) \<ge> 0) \<noteq> (hd ((rs @ [cur]) ! Suc i) \<ge> 0)"
    unfolding sign_runs_def by simp_all
  note c2 = one_sign_snoc[OF assms(2) cur1 assms(3)]
  have heads: "hd ((rs @ [cur @ [x]]) ! i) = hd ((rs @ [cur]) ! i)" if "i \<le> length rs" for i
    using that assms(2) by (cases "i < length rs") (simp_all add: nth_append)
  have adj2: "\<forall>i. Suc i < length (rs @ [cur @ [x]]) \<longrightarrow>
                (hd ((rs @ [cur @ [x]]) ! i) \<ge> 0) \<noteq> (hd ((rs @ [cur @ [x]]) ! Suc i) \<ge> 0)"
  proof (intro allI impI)
    fix i assume a: "Suc i < length (rs @ [cur @ [x]])"
    then have "Suc i < length (rs @ [cur])" by simp
    with adj have "(hd ((rs @ [cur]) ! i) \<ge> 0) \<noteq> (hd ((rs @ [cur]) ! Suc i) \<ge> 0)" by blast
    moreover have "i \<le> length rs" "Suc i \<le> length rs" using a by simp_all
    ultimately show "(hd ((rs @ [cur @ [x]]) ! i) \<ge> 0) \<noteq> (hd ((rs @ [cur @ [x]]) ! Suc i) \<ge> 0)"
      by (simp add: heads del: nth_append_length)
  qed
  have "\<forall>r \<in> set (rs @ [cur @ [x]]).
          r \<noteq> [] \<and> ((\<forall>v \<in> set r. v \<ge> 0) \<or> (\<forall>v \<in> set r. v < 0))"
    using runs c2 by auto
  with adj2 show ?thesis unfolding sign_runs_def by blast
qed

lemma sign_runs_snoc_new:
  assumes "sign_runs (rs @ [cur])" "(x \<ge> 0) \<noteq> (hd cur \<ge> 0)"
  shows "sign_runs ((rs @ [cur]) @ [[x]])"
proof -
  let ?rs = "rs @ [cur]"
  from assms(1) have runs: "\<forall>r \<in> set ?rs. r \<noteq> [] \<and> ((\<forall>v \<in> set r. v \<ge> 0) \<or> (\<forall>v \<in> set r. v < 0))"
    and adj: "\<forall>i. Suc i < length ?rs \<longrightarrow> (hd (?rs ! i) \<ge> 0) \<noteq> (hd (?rs ! Suc i) \<ge> 0)"
    unfolding sign_runs_def by blast+
  have adj2: "\<forall>i. Suc i < length (?rs @ [[x]]) \<longrightarrow>
                (hd ((?rs @ [[x]]) ! i) \<ge> 0) \<noteq> (hd ((?rs @ [[x]]) ! Suc i) \<ge> 0)"
  proof (intro allI impI)
    fix i assume a: "Suc i < length (?rs @ [[x]])"
    show "(hd ((?rs @ [[x]]) ! i) \<ge> 0) \<noteq> (hd ((?rs @ [[x]]) ! Suc i) \<ge> 0)"
    proof (cases "Suc i < length ?rs")
      case True
      with adj have "(hd (?rs ! i) \<ge> 0) \<noteq> (hd (?rs ! Suc i) \<ge> 0)" by blast
      moreover have "(?rs @ [[x]]) ! i = ?rs ! i" "(?rs @ [[x]]) ! Suc i = ?rs ! Suc i"
        using True by (simp_all add: nth_append)
      ultimately show ?thesis by simp
    next
      case False
      with a have i: "i = length rs" by simp
      have "(?rs @ [[x]]) ! i = cur" unfolding i by (simp add: nth_append)
      moreover have "(?rs @ [[x]]) ! Suc i = [x]" unfolding i by (simp add: nth_append)
      ultimately show ?thesis using assms(2) by auto
    qed
  qed
  have "0 \<le> x \<or> x < 0" by linarith
  then have "\<forall>r \<in> set (?rs @ [[x]]).
          r \<noteq> [] \<and> ((\<forall>v \<in> set r. v \<ge> 0) \<or> (\<forall>v \<in> set r. v < 0))"
    using runs by auto
  with adj2 show ?thesis unfolding sign_runs_def by blast
qed

lemma split_by_sign_loop_inv:
  assumes "split_by_sign_loop xs result cur sg = (result', cur')"
    and "sign_runs (result @ [cur])" and "cur \<noteq> []" and "sg = (hd cur \<ge> 0)"
  shows "sign_runs (result' @ [cur']) \<and> cur' \<noteq> [] \<and>
         concat (result' @ [cur']) = concat (result @ [cur]) @ xs"
  using assms
proof (induction xs arbitrary: result cur sg)
  case Nil
  then show ?case by simp
next
  case (Cons x xs)
  show ?case
  proof (cases "(x \<ge> 0) = sg")
    case True
    with Cons.prems have step: "split_by_sign_loop xs result (cur @ [x]) sg = (result', cur')"
      by (simp add: Let_def)
    have "sign_runs (result @ [cur @ [x]])"
      using Cons.prems True by (intro sign_runs_snoc_same) auto
    moreover have "sg = (hd (cur @ [x]) \<ge> 0)" using Cons.prems by simp
    ultimately show ?thesis
      using Cons.IH[OF step] by simp
  next
    case False
    with Cons.prems
    have step: "split_by_sign_loop xs (result @ [cur]) [x] (x \<ge> 0) = (result', cur')"
      by (simp add: Let_def)
    have "sign_runs ((result @ [cur]) @ [[x]])"
      using Cons.prems False by (intro sign_runs_snoc_new) auto
    then show ?thesis
      using Cons.IH[OF step] by simp
  qed
qed

lemma sign_runs_single: "sign_runs [[x]]"
  by (auto simp: sign_runs_def)

lemma split_by_sign_runs: "sign_runs (split_by_sign xs) \<and> concat (split_by_sign xs) = xs"
proof (cases xs)
  case Nil
  then show ?thesis by (simp add: split_by_sign_def sign_runs_def)
next
  case (Cons x ys)
  obtain r c where rc: "split_by_sign_loop ys [] [x] (x \<ge> 0) = (r, c)"
    by (cases "split_by_sign_loop ys [] [x] (x \<ge> 0)")
  from split_by_sign_loop_inv[OF rc] sign_runs_single[of x]
  have "sign_runs (r @ [c]) \<and> c \<noteq> [] \<and> concat (r @ [c]) = x # ys" by simp
  then show ?thesis using Cons rc by (simp add: split_by_sign_def)
qed

lemma split_by_sign_example:
  "split_by_sign [1, 2, -3, -4, 5, 0, -1] = [[1, 2], [-3, -4], [5, 0], [-1]]"
  by (simp add: split_by_sign_def)

text \<open>
  C9.  For every input, \<open>split_by_sign\<close> returns non-empty runs of one sign each (zero
  counted as non-negative) whose neighbours differ in sign, so every run is maximal; the
  runs keep the order of the elements and concatenate to the input; and the sequence
  \<open>[1, 2, -3, -4, 5, 0, -1]\<close> is split into \<open>[[1, 2], [-3, -4], [5, 0], [-1]]\<close>.
\<close>

theorem split_by_sign_partitions:
  "sign_runs (split_by_sign xs) \<and> concat (split_by_sign xs) = xs \<and>
   split_by_sign [1, 2, -3, -4, 5, 0, -1] = [[1, 2], [-3, -4], [5, 0], [-1]]"
proof -
  note r = split_by_sign_runs[of xs]
  show ?thesis
    by (rule conjI[OF conjunct1[OF r] conjI[OF conjunct2[OF r] split_by_sign_example]])
qed

theorem split_by_sign_partitions_witness:
  "split_by_sign [3, 0, -2] = [[3, 0], [-2]] \<and>
   sign_runs [[3, 0], [-2]] \<and> concat [[3, 0], [-2 :: real]] = [3, 0, -2]"
proof -
  have e: "split_by_sign [3, 0, -2] = [[3, 0], [-2]]"
    by (simp add: split_by_sign_def)
  show ?thesis
    using split_by_sign_partitions[of "[3, 0, -2]"] unfolding e by simp
qed

subsection \<open>Focal ratios\<close>

lemma phy_fold_inv:
  "case fold (phy_step r) [0..<n] (0, []) of (p, l) \<Rightarrow>
     length l = n \<and> (n > 0 \<longrightarrow> p = l ! (n - 1) \<and> l ! 0 = 0) \<and> (n = 0 \<longrightarrow> p = 0) \<and>
     (\<forall>i. 1 \<le> i \<and> i < n \<longrightarrow>
        l ! i = rf_b r ! i / (rf_a r ! i + rf_c r ! (i - 1) - rf_b r ! (i - 1) * l ! (i - 1)))"
proof (induction n)
  case 0
  then show ?case by simp
next
  case (Suc n)
  obtain p l where pl: "fold (phy_step r) [0..<n] (0, []) = (p, l)"
    by (cases "fold (phy_step r) [0..<n] (0, [])")
  with Suc have IH: "length l = n" "n > 0 \<Longrightarrow> p = l ! (n - 1) \<and> l ! 0 = 0" "n = 0 \<Longrightarrow> p = 0"
    "\<And>i. 1 \<le> i \<Longrightarrow> i < n \<Longrightarrow>
        l ! i = rf_b r ! i / (rf_a r ! i + rf_c r ! (i - 1) - rf_b r ! (i - 1) * l ! (i - 1))"
    by auto
  have step: "fold (phy_step r) [0..<Suc n] (0, []) = phy_step r n (p, l)"
    using pl by simp
  show ?case
  proof (cases "n = 0")
    case True
    then show ?thesis unfolding step using IH by (simp add: phy_step_def)
  next
    case False
    then show ?thesis unfolding step using IH
      by (auto simp: phy_step_def Let_def nth_append less_Suc_eq)
  qed
qed

lemma countdown_eq: "countdown n = map (\<lambda>k. n - k) [0..<n]"
  by (rule nth_equalityI) (auto simp: countdown_def rev_nth simp del: upt_Suc)

lemma phy_prime_fold_inv:
  "k \<le> nb_travee r \<Longrightarrow>
   case fold (phy_prime_step r) (map (\<lambda>j. nb_travee r - j) [0..<k]) (p0, []) of (p, l) \<Rightarrow>
     length l = k \<and> (k > 0 \<longrightarrow> p = l ! (k - 1) \<and> l ! 0 = 0) \<and>
     (\<forall>j. 1 \<le> j \<and> j < k \<longrightarrow>
        l ! j = rf_b r ! (nb_travee r - j - 1) /
                 (rf_c r ! (nb_travee r - j - 1) + rf_a r ! (nb_travee r - j)
                   - rf_b r ! (nb_travee r - j) * l ! (j - 1)))"
proof (induction k)
  case 0
  then show ?case by simp
next
  case (Suc k)
  let ?n = "nb_travee r"
  obtain p l where pl: "fold (phy_prime_step r) (map (\<lambda>j. ?n - j) [0..<k]) (p0, []) = (p, l)"
    by (cases "fold (phy_prime_step r) (map (\<lambda>j. ?n - j) [0..<k]) (p0, [])")
  with Suc have IH: "length l = k" "k > 0 \<Longrightarrow> p = l ! (k - 1) \<and> l ! 0 = 0"
    "\<And>j. 1 \<le> j \<Longrightarrow> j < k \<Longrightarrow>
        l ! j = rf_b r ! (?n - j - 1) /
                 (rf_c r ! (?n - j - 1) + rf_a r ! (?n - j) - rf_b r ! (?n - j) * l ! (j - 1))"
    by auto
  have step: "fold (phy_prime_step r) (map (\<lambda>j. ?n - j) [0..<Suc k]) (p0, [])
                = phy_prime_step r (?n - k) (p, l)"
    using pl by simp
  show ?case
  proof (cases "k = 0")
    case True
    then show ?thesis unfolding step using IH by (simp add: phy_prime_step_def)
  next
    case False
    then have "?n - k \<noteq> ?n" using Suc.prems by simp
    then show ?thesis unfolding step using IH False
      by (auto simp: phy_prime_step_def Let_def nth_append less_Suc_eq)
  qed
qed

lemma phy_props:
  "length (phy r) = nb_travee r \<and> (0 < nb_travee r \<longrightarrow> phy r ! 0 = 0) \<and>
   (\<forall>i. 1 \<le> i \<and> i < nb_travee r \<longrightarrow>
      phy r ! i = rf_b r ! i / (rf_a r ! i + rf_c r ! (i - 1) - rf_b r ! (i - 1) * phy r ! (i - 1)))"
  using phy_fold_inv[where r=r and n="nb_travee r"]
  by (auto simp: phy_def split: prod.splits)

lemma phy_prime_props:
  "length (phy_prime r) = nb_travee r \<and>
   (0 < nb_travee r \<longrightarrow> phy_prime r ! (nb_travee r - 1) = 0) \<and>
   (\<forall>i. i + 1 < nb_travee r \<longrightarrow>
      phy_prime r ! i =
        rf_b r ! i / (rf_c r ! i + rf_a r ! (i + 1) - rf_b r ! (i + 1) * phy_prime r ! (i + 1)))"
proof -
  let ?n = "nb_travee r"
  obtain p l where pl: "fold (phy_prime_step r) (countdown ?n) (0, []) = (p, l)"
    by (cases "fold (phy_prime_step r) (countdown ?n) (0, [])")
  from phy_prime_fold_inv[where k="?n" and r=r and ?p0.0=0] pl
  have len: "length l = ?n" and l0: "0 < ?n \<Longrightarrow> l ! 0 = 0"
    and rec: "\<And>j. 1 \<le> j \<Longrightarrow> j < ?n \<Longrightarrow>
        l ! j = rf_b r ! (?n - j - 1) /
                 (rf_c r ! (?n - j - 1) + rf_a r ! (?n - j) - rf_b r ! (?n - j) * l ! (j - 1))"
    by (auto simp: countdown_eq)
  have pp: "phy_prime r = map (\<lambda>i. l ! (i - 1)) (countdown ?n)"
    using pl by (simp add: phy_prime_def)
  have nth: "phy_prime r ! i = l ! (?n - i - 1)" if "i < ?n" for i
    using that by (simp add: pp countdown_eq)
  have "length (phy_prime r) = ?n" by (simp add: pp countdown_eq)
  moreover have "phy_prime r ! (?n - 1) = 0" if "0 < ?n"
    using that nth[of "?n - 1"] l0 by simp
  moreover have "phy_prime r ! i =
        rf_b r ! i / (rf_c r ! i + rf_a r ! (i + 1) - rf_b r ! (i + 1) * phy_prime r ! (i + 1))"
    if "i + 1 < ?n" for i
  proof -
    have "phy_prime r ! i = l ! (?n - i - 1)" using that nth[of i] by simp
    also have "\<dots> = rf_b r ! (?n - (?n - i - 1) - 1) /
                 (rf_c r ! (?n - (?n - i - 1) - 1) + rf_a r ! (?n - (?n - i - 1))
                    - rf_b r ! (?n - (?n - i - 1)) * l ! ((?n - i - 1) - 1))"
      using that by (intro rec) auto
    also have "?n - (?n - i - 1) - 1 = i" using that by simp
    also have "?n - (?n - i - 1) = i + 1" using that by simp
    also have "l ! ((?n - i - 1) - 1) = phy_prime r ! (i + 1)"
      using that nth[of "i + 1"] by simp
    finally show ?thesis .
  qed
  ultimately show ?thesis by blast
qed

text \<open>
  C3.  For coefficient vectors \<open>a\<close>, \<open>b\<close>, \<open>c\<close> of the common length \<open>N = nb_travee\<close>,
  \<open>phy\<close> returns \<open>N\<close> values with \<open>phy[0] = 0\<close> and
  \<open>phy[i] = b[i] / (a[i] + c[i-1] - b[i-1] * phy[i-1])\<close> for \<open>1 \<le> i < N\<close>, and
  \<open>phy_prime\<close> returns \<open>N\<close> values in span order with \<open>phy_prime[N-1] = 0\<close> and
  \<open>phy_prime[i] = b[i] / (c[i] + a[i+1] - b[i+1] * phy_prime[i+1])\<close> for \<open>0 \<le> i \<le> N-2\<close>.
\<close>

theorem focal_ratio_recurrences:
  assumes "length (rf_a r) = nb_travee r" and "length (rf_b r) = nb_travee r"
    and "length (rf_c r) = nb_travee r"
  shows "length (phy r) = nb_travee r \<and>
         (0 < nb_travee r \<longrightarrow> phy r ! 0 = 0) \<and>
         (\<forall>i. 1 \<le> i \<and> i < nb_travee r \<longrightarrow>
            phy r ! i =
              rf_b r ! i / (rf_a r ! i + rf_c r ! (i - 1) - rf_b r ! (i - 1) * phy r ! (i - 1))) \<and>
         length (phy_prime r) = nb_travee r \<and>
         (0 < nb_travee r \<longrightarrow> phy_prime r ! (nb_travee r - 1) = 0) \<and>
         (\<forall>i. i + 1 < nb_travee r \<longrightarrow>
            phy_prime r ! i =
              rf_b r ! i /
                (rf_c r ! i + rf_a r ! (i + 1) - rf_b r ! (i + 1) * phy_prime r ! (i + 1)))"
proof -
  note p = phy_props[of r] and q = phy_prime_props[of r]
  show ?thesis
    by (rule conjI[OF p[THEN conjunct1] conjI[OF p[THEN conjunct2, THEN conjunct1]
          conjI[OF p[THEN conjunct2, THEN conjunct2] q]]])
qed

theorem focal_ratio_recurrences_witness:
  "phy \<lparr>rf_a = [2, 2, 2], rf_b = [1, 1, 1], rf_c = [2, 2, 2], nb_travee = 3\<rparr> ! 0 = 0 \<and>
   phy \<lparr>rf_a = [2, 2, 2], rf_b = [1, 1, 1], rf_c = [2, 2, 2], nb_travee = 3\<rparr> ! 1 = 1 / 4 \<and>
   phy_prime \<lparr>rf_a = [2, 2, 2], rf_b = [1, 1, 1], rf_c = [2, 2, 2], nb_travee = 3\<rparr> ! 2 = 0 \<and>
   phy_prime \<lparr>rf_a = [2, 2, 2], rf_b = [1, 1, 1], rf_c = [2, 2, 2], nb_travee = 3\<rparr> ! 1 = 1 / 4"
proof -
  let ?r = "\<lparr>rf_a = [2, 2, 2], rf_b = [1, 1, 1], rf_c = [2, 2, 2], nb_travee = 3\<rparr>"
  have h: "length (rf_a ?r) = nb_travee ?r" "length (rf_b ?r) = nb_travee ?r"
    "length (rf_c ?r) = nb_travee ?r"
    by simp_all
  note t = focal_ratio_recurrences[OF h]
  note t0 = t[THEN conjunct2, THEN conjunct1]
  note t1 = t[THEN conjunct2, THEN conjunct2, THEN conjunct1, THEN spec, of 1]
  note t2 = t[THEN conjunct2, THEN conjunct2, THEN conjunct2, THEN conjunct2, THEN conjunct1]
  note t3 = t[THEN conjunct2, THEN conjunct2, THEN conjunct2, THEN conjunct2, THEN conjunct2,
              THEN spec, of 1]
  have p0: "phy ?r ! 0 = 0" using t0 by simp
  have p1: "phy ?r ! 1 = 1 / 4" using t1 p0 by simp
  have q2: "phy_prime ?r ! 2 = 0" using t2 by simp
  have q1: "phy_prime ?r ! 1 = 1 / 4" using t3 q2 by (simp add: eval_nat_numeral)
  show ?thesis using p0 p1 q2 q1 by simp
qed

subsection \<open>The observation grid\<close>

lemma length_alpha: "length (alpha s) = nat (iso_division s) + 1"
  by (simp add: alpha_def)

lemma alpha_nth:
  assumes "1 \<le> iso_division s" and "i \<le> nat (iso_division s)"
  shows "alpha s ! i = iso_L s * real i / real_of_int (iso_division s)"
proof (cases "i < nat (iso_division s)")
  case True
  then show ?thesis by (simp add: alpha_def nth_append)
next
  case False
  with assms have "i = nat (iso_division s)" by simp
  moreover have "real (nat (iso_division s)) = real_of_int (iso_division s)"
    using assms by simp
  ultimately show ?thesis using assms by (simp add: alpha_def nth_append)
qed

lemma alpha_strict:
  assumes "0 < iso_L s" and "1 \<le> iso_division s"
    and "i < j" and "j \<le> nat (iso_division s)"
  shows "alpha s ! i < alpha s ! j"
proof -
  have d: "0 < real_of_int (iso_division s)" using assms by simp
  have "iso_L s * real i < iso_L s * real j" using assms by simp
  then have "iso_L s * real i / real_of_int (iso_division s)
               < iso_L s * real j / real_of_int (iso_division s)"
    using d by (simp add: divide_strict_right_mono)
  then show ?thesis using assms by (simp add: alpha_nth)
qed

lemma alpha_range:
  assumes "0 < iso_L s" and "1 \<le> iso_division s" and "x \<in> set (alpha s)"
  shows "0 \<le> x \<and> x \<le> iso_L s"
proof -
  from assms(3) obtain i where i: "i \<le> nat (iso_division s)" and x: "x = alpha s ! i"
    by (auto simp: in_set_conv_nth length_alpha less_Suc_eq_le)
  have d: "0 < real_of_int (iso_division s)" using assms by simp
  have xi: "x = iso_L s * real i / real_of_int (iso_division s)"
    using x alpha_nth[OF assms(2) i] by simp
  have "real i \<le> real_of_int (iso_division s)" using i assms(2) by linarith
  then have "iso_L s * real i \<le> iso_L s * real_of_int (iso_division s)"
    using assms(1) by simp
  then have "iso_L s * real i / real_of_int (iso_division s) \<le> iso_L s"
    using d by (simp add: pos_divide_le_eq)
  moreover have "0 \<le> iso_L s * real i / real_of_int (iso_division s)"
    using assms(1) d by simp
  ultimately show ?thesis using xi by simp
qed

lemma concat_map_singleton: "concat (map (\<lambda>x. [f x]) xs) = map f xs"
  by (induction xs) simp_all

subsection \<open>Bending moment of one span\<close>

lemma M_eq_moment_at:
  assumes "sigma \<le> iso_L s"
  shows "M s sigma = map (\<lambda>x. moment_at (iso_L s) x sigma) (alpha s)"
proof -
  have "(\<lambda>i. if i \<le> sigma then [i * (1 - sigma / iso_L s)]
              else if i > sigma then [sigma * (1 - i / iso_L s)] else [])
        = (\<lambda>i. [moment_at (iso_L s) i sigma])"
    by (rule ext) (simp add: moment_at_def)
  then show ?thesis using assms by (simp add: M_def concat_map_singleton)
qed

lemma moment_at_sym: "moment_at L x sigma = moment_at L sigma x"
  by (cases "x = sigma") (auto simp: moment_at_def)

text \<open>
  C8.  For \<open>L > 0\<close> and \<open>x\<close>, \<open>sigma\<close> in \<open>[0, L]\<close>, the moment influence value
  \<open>x * (1 - sigma/L)\<close> for \<open>x \<le> sigma\<close> and \<open>sigma * (1 - x/L)\<close> for \<open>x > sigma\<close> is
  unchanged when \<open>x\<close> and \<open>sigma\<close> are exchanged; and it is the value that \<open>M\<close> computes
  at every grid point for the load position \<open>sigma\<close>.
\<close>

theorem moment_reciprocity:
  assumes "0 < iso_L s" and "0 \<le> x" and "x \<le> iso_L s" and "0 \<le> sigma" and "sigma \<le> iso_L s"
  shows "moment_at (iso_L s) x sigma = moment_at (iso_L s) sigma x \<and>
         M s sigma = map (\<lambda>x. moment_at (iso_L s) x sigma) (alpha s) \<and>
         M s x = map (\<lambda>y. moment_at (iso_L s) y x) (alpha s)"
  using moment_at_sym[of "iso_L s" x sigma] M_eq_moment_at[OF assms(5)] M_eq_moment_at[OF assms(3)]
  by simp

theorem moment_reciprocity_witness:
  "moment_at 5 2 3 = 4 / 5 \<and> moment_at 5 3 2 = 4 / 5 \<and>
   M \<lparr>iso_E = 1, iso_I = 1, iso_I_varer = [], iso_pos_I_varier = [], iso_L = 5,
      iso_division = 2\<rparr> 3 = [0, 1, 0]"
proof -
  let ?s = "\<lparr>iso_E = 1, iso_I = 1, iso_I_varer = [], iso_pos_I_varier = [], iso_L = 5,
             iso_division = 2\<rparr>"
  have h: "0 < iso_L ?s" "(0::real) \<le> 2" "2 \<le> iso_L ?s" "(0::real) \<le> 3" "3 \<le> iso_L ?s"
    by simp_all
  have a: "alpha ?s = [0, 5 / 2, 5]"
    by (simp add: alpha_def upt_rec)
  from moment_reciprocity[OF h] show ?thesis
    by (simp add: a) (simp add: moment_at_def)
qed

subsection \<open>Shear force of one span\<close>

lemma T_valeurs_split:
  assumes "\<forall>x \<in> set xs. x < (sigma::real)" and "\<forall>x \<in> set ys. sigma < x"
  shows "concat (map (\<lambda>i. if i < sigma then [- i / L]
                           else if i > sigma then [1 - i / L]
                           else if i = sigma then [- i / L, 1 - i / L]
                           else []) (xs @ [sigma] @ ys))
         = map (\<lambda>i. - i / L) xs @ [- sigma / L, 1 - sigma / L] @ map (\<lambda>i. 1 - i / L) ys"
proof -
  define f where "f = (\<lambda>i. if i < sigma then [- i / L]
                 else if i > sigma then [1 - i / L]
                 else if i = sigma then [- i / L, 1 - i / L]
                 else [])"
  have fx: "f x = [- x / L]" if "x \<in> set xs" for x
  proof -
    from that assms(1) have "x < sigma" by blast
    then show ?thesis by (simp add: f_def)
  qed
  have fy: "f y = [1 - y / L]" if "y \<in> set ys" for y
  proof -
    from that assms(2) have "sigma < y" by blast
    then show ?thesis by (simp add: f_def)
  qed
  have fs: "f sigma = [- sigma / L, 1 - sigma / L]" by (simp add: f_def)
  have "map f xs = map (\<lambda>i. [- i / L]) xs" using fx by (intro map_cong refl)
  then have cx: "concat (map f xs) = map (\<lambda>i. - i / L) xs"
    by (simp only: concat_map_singleton)
  have "map f ys = map (\<lambda>i. [1 - i / L]) ys" using fy by (intro map_cong refl)
  then have cy: "concat (map f ys) = map (\<lambda>i. 1 - i / L) ys"
    by (simp only: concat_map_singleton)
  have "concat (map f (xs @ [sigma] @ ys)) = concat (map f xs) @ f sigma @ concat (map f ys)"
    by simp
  then show ?thesis unfolding cx cy fs unfolding f_def .
qed

lemma T_coordonne_split:
  assumes "\<forall>x \<in> set xs. x < (sigma::real)" and "\<forall>x \<in> set ys. sigma < x"
  shows "concat (map (\<lambda>i. if i < sigma then [i]
                           else if i > sigma then [i]
                           else if i = sigma then [i, i]
                           else []) (xs @ [sigma] @ ys))
         = xs @ [sigma, sigma] @ ys"
proof -
  define f where "f = (\<lambda>i. if i < sigma then [i]
                 else if i > sigma then [i]
                 else if i = sigma then [i, i]
                 else [])"
  have fx: "f x = [x]" if "x \<in> set xs" for x
  proof -
    from that assms(1) have "x < sigma" by blast
    then show ?thesis by (simp add: f_def)
  qed
  have fy: "f y = [y]" if "y \<in> set ys" for y
  proof -
    from that assms(2) have "sigma < y" by blast
    then show ?thesis by (simp add: f_def)
  qed
  have fs: "f sigma = [sigma, sigma]" by (simp add: f_def)
  have "map f xs = map (\<lambda>i. [i]) xs" using fx by (intro map_cong refl)
  then have cx: "concat (map f xs) = xs"
    by (simp only: concat_map_singleton list.map_ident)
  have "map f ys = map (\<lambda>i. [i]) ys" using fy by (intro map_cong refl)
  then have cy: "concat (map f ys) = ys"
    by (simp only: concat_map_singleton list.map_ident)
  have "concat (map f (xs @ [sigma] @ ys)) = concat (map f xs) @ f sigma @ concat (map f ys)"
    by simp
  then show ?thesis unfolding cx cy fs unfolding f_def .
qed

lemma alpha_decompose:
  assumes "0 < iso_L s" and "1 \<le> iso_division s" and "k \<le> nat (iso_division s)"
  shows "alpha s = take k (alpha s) @ [alpha s ! k] @ drop (Suc k) (alpha s)"
    and "\<forall>x \<in> set (take k (alpha s)). x < alpha s ! k"
    and "\<forall>x \<in> set (drop (Suc k) (alpha s)). alpha s ! k < x"
    and "length (take k (alpha s)) = k"
    and "length (drop (Suc k) (alpha s)) = nat (iso_division s) - k"
proof -
  have kl: "k < length (alpha s)" using assms(3) by (simp add: length_alpha)
  show "alpha s = take k (alpha s) @ [alpha s ! k] @ drop (Suc k) (alpha s)"
    using kl by (simp add: id_take_nth_drop[symmetric])
  show "\<forall>x \<in> set (take k (alpha s)). x < alpha s ! k"
  proof
    fix x assume "x \<in> set (take k (alpha s))"
    then obtain i where "i < k" "x = alpha s ! i"
      using kl by (auto simp: in_set_conv_nth)
    then show "x < alpha s ! k" using alpha_strict[OF assms(1,2) _ assms(3)] by simp
  qed
  show "\<forall>x \<in> set (drop (Suc k) (alpha s)). alpha s ! k < x"
  proof
    fix x assume "x \<in> set (drop (Suc k) (alpha s))"
    then obtain i where i: "i < length (alpha s) - Suc k" "x = alpha s ! (Suc k + i)"
      by (auto simp: in_set_conv_nth)
    then have "Suc k + i \<le> nat (iso_division s)" by (simp add: length_alpha)
    then show "alpha s ! k < x" using i alpha_strict[OF assms(1,2), of k "Suc k + i"] by simp
  qed
  show "length (take k (alpha s)) = k" using kl by simp
  show "length (drop (Suc k) (alpha s)) = nat (iso_division s) - k"
    by (simp add: length_alpha)
qed

lemma T_valeurs_grid:
  assumes "0 < iso_L s" and "1 \<le> iso_division s" and "k \<le> nat (iso_division s)"
  shows "T_valeurs s (alpha s ! k) =
           map (\<lambda>i. - i / iso_L s) (take k (alpha s))
             @ [- (alpha s ! k) / iso_L s, 1 - (alpha s ! k) / iso_L s]
             @ map (\<lambda>i. 1 - i / iso_L s) (drop (Suc k) (alpha s))"
proof -
  note d = alpha_decompose[OF assms]
  have in_range: "alpha s ! k \<le> iso_L s"
    using alpha_range[OF assms(1,2), of "alpha s ! k"] assms(3) by (simp add: length_alpha)
  have "T_valeurs s (alpha s ! k) =
          concat (map (\<lambda>i. if i < alpha s ! k then [- i / iso_L s]
                           else if i > alpha s ! k then [1 - i / iso_L s]
                           else if i = alpha s ! k then [- i / iso_L s, 1 - i / iso_L s]
                           else []) (take k (alpha s) @ [alpha s ! k] @ drop (Suc k) (alpha s)))"
    using in_range d(1) by (simp add: T_valeurs_def)
  also have "\<dots> = map (\<lambda>i. - i / iso_L s) (take k (alpha s))
             @ [- (alpha s ! k) / iso_L s, 1 - (alpha s ! k) / iso_L s]
             @ map (\<lambda>i. 1 - i / iso_L s) (drop (Suc k) (alpha s))"
    by (rule T_valeurs_split[OF d(2) d(3)])
  finally show ?thesis .
qed

lemma T_coordonne_grid:
  assumes "0 < iso_L s" and "1 \<le> iso_division s" and "k \<le> nat (iso_division s)"
  shows "T_coordonne s (alpha s ! k) =
           take k (alpha s) @ [alpha s ! k, alpha s ! k] @ drop (Suc k) (alpha s)"
proof -
  note d = alpha_decompose[OF assms]
  have in_range: "alpha s ! k \<le> iso_L s"
    using alpha_range[OF assms(1,2), of "alpha s ! k"] assms(3) by (simp add: length_alpha)
  have "T_coordonne s (alpha s ! k) =
          concat (map (\<lambda>i. if i < alpha s ! k then [i]
                           else if i > alpha s ! k then [i]
                           else if i = alpha s ! k then [i, i]
                           else []) (take k (alpha s) @ [alpha s ! k] @ drop (Suc k) (alpha s)))"
    using in_range d(1) by (simp add: T_coordonne_def)
  also have "\<dots> = take k (alpha s) @ [alpha s ! k, alpha s ! k] @ drop (Suc k) (alpha s)"
    by (rule T_coordonne_split[OF d(2) d(3)])
  finally show ?thesis .
qed

text \<open>
  C5.  For a span with \<open>L > 0\<close> and \<open>division \<ge> 1\<close> and the load at the \<open>k\<close>-th grid
  point \<open>sigma\<close> (so \<open>0 \<le> sigma \<le> L\<close>), \<open>T(sigma)\<close> has \<open>division + 2\<close> samples; the
  samples \<open>k\<close> and \<open>k + 1\<close> both have the abscissa \<open>sigma\<close>, their values are \<open>- sigma/L\<close>
  then \<open>1 - sigma/L\<close>, and they differ by exactly 1.
\<close>

theorem shear_unit_jump:
  assumes "0 < iso_L s" and "1 \<le> iso_division s" and "k \<le> nat (iso_division s)"
    and "sigma = alpha s ! k"
  shows "0 \<le> sigma \<and> sigma \<le> iso_L s \<and>
         length (T s sigma False) = nat (iso_division s) + 2 \<and>
         length (T s sigma True) = nat (iso_division s) + 2 \<and>
         T s sigma True ! k = sigma \<and> T s sigma True ! (k + 1) = sigma \<and>
         T s sigma False ! k = - sigma / iso_L s \<and>
         T s sigma False ! (k + 1) = 1 - sigma / iso_L s \<and>
         T s sigma False ! (k + 1) - T s sigma False ! k = 1"
proof -
  note d = alpha_decompose[OF assms(1-3)]
  have r: "0 \<le> sigma \<and> sigma \<le> iso_L s"
    using alpha_range[OF assms(1,2), of sigma] assms(3,4) by (simp add: length_alpha)
  have v: "T s sigma False =
             map (\<lambda>i. - i / iso_L s) (take k (alpha s))
               @ [- sigma / iso_L s, 1 - sigma / iso_L s]
               @ map (\<lambda>i. 1 - i / iso_L s) (drop (Suc k) (alpha s))"
    using T_valeurs_grid[OF assms(1-3)] assms(4) by (simp add: T_def)
  have c: "T s sigma True = take k (alpha s) @ [sigma, sigma] @ drop (Suc k) (alpha s)"
    using T_coordonne_grid[OF assms(1-3)] assms(4) by (simp add: T_def)
  have lv: "length (T s sigma False) = nat (iso_division s) + 2"
    unfolding v using d(4,5) assms(3) by simp
  have lc: "length (T s sigma True) = nat (iso_division s) + 2"
    unfolding c using d(4,5) assms(3) by simp
  have v0: "T s sigma False ! k = - sigma / iso_L s"
    unfolding v using d(4) by (simp add: nth_append)
  have v1: "T s sigma False ! (k + 1) = 1 - sigma / iso_L s"
    unfolding v using d(4) by (simp add: nth_append)
  have c0: "T s sigma True ! k = sigma"
    unfolding c using d(4) by (simp add: nth_append)
  have c1: "T s sigma True ! (k + 1) = sigma"
    unfolding c using d(4) by (simp add: nth_append)
  have j: "T s sigma False ! (k + 1) - T s sigma False ! k = 1"
    unfolding v0 v1 by simp
  show ?thesis using r lv lc v0 v1 c0 c1 j by simp
qed

theorem shear_unit_jump_witness:
  "T \<lparr>iso_E = 1, iso_I = 1, iso_I_varer = [], iso_pos_I_varier = [], iso_L = 5,
      iso_division = 2\<rparr> (5 / 2) False ! 1 = - (1 / 2) \<and>
   T \<lparr>iso_E = 1, iso_I = 1, iso_I_varer = [], iso_pos_I_varier = [], iso_L = 5,
      iso_division = 2\<rparr> (5 / 2) False ! 2 = 1 / 2 \<and>
   length (T \<lparr>iso_E = 1, iso_I = 1, iso_I_varer = [], iso_pos_I_varier = [], iso_L = 5,
      iso_division = 2\<rparr> (5 / 2) False) = 4"
proof -
  let ?s = "\<lparr>iso_E = 1, iso_I = 1, iso_I_varer = [], iso_pos_I_varier = [], iso_L = 5,
             iso_division = 2\<rparr>"
  have a: "alpha ?s = [0, 5 / 2, 5]"
    by (simp add: alpha_def upt_rec)
  have h: "0 < iso_L ?s" "1 \<le> iso_division ?s" "1 \<le> nat (iso_division ?s)"
    "5 / 2 = alpha ?s ! 1"
    by (simp_all add: a)
  from shear_unit_jump[OF h] show ?thesis by (simp add: numeral_2_eq_2)
qed

subsection \<open>Load beyond the span\<close>

text \<open>
  C6.  For a load position \<open>sigma > L\<close> (and \<open>division \<ge> 0\<close>) no operation fails, and
  \<open>OMEGA\<close> and \<open>V\<close> return \<open>division + 1\<close> zeros, one per grid point; but \<open>T\<close> and \<open>M\<close>
  return only \<open>division\<close> zeros, while \<open>T\<close> pairs them with the \<open>division + 1\<close>
  abscissas of the grid.
\<close>

theorem load_beyond_span:
  assumes "iso_L s < sigma" and "0 \<le> iso_division s"
  shows "length (alpha s) = nat (iso_division s) + 1 \<and>
         OMEGA s sigma = replicate (nat (iso_division s) + 1) 0 \<and>
         V s sigma = replicate (nat (iso_division s) + 1) 0 \<and>
         M s sigma = replicate (nat (iso_division s)) 0 \<and>
         T s sigma False = replicate (nat (iso_division s)) 0 \<and>
         T s sigma True = alpha s"
  using assms
  by (simp add: length_alpha OMEGA_def fonct_OMEGA_def V_def fonct_V_def M_def T_def
        T_valeurs_def T_coordonne_def)

theorem load_beyond_span_witness:
  "alpha \<lparr>iso_E = 1, iso_I = 1, iso_I_varer = [], iso_pos_I_varier = [], iso_L = - 1,
      iso_division = 2\<rparr> = [0, - (1 / 2), - 1] \<and>
   M \<lparr>iso_E = 1, iso_I = 1, iso_I_varer = [], iso_pos_I_varier = [], iso_L = - 1,
      iso_division = 2\<rparr> 0 = [0, 0] \<and>
   T \<lparr>iso_E = 1, iso_I = 1, iso_I_varer = [], iso_pos_I_varier = [], iso_L = - 1,
      iso_division = 2\<rparr> 0 False = [0, 0] \<and>
   OMEGA \<lparr>iso_E = 1, iso_I = 1, iso_I_varer = [], iso_pos_I_varier = [], iso_L = - 1,
      iso_division = 2\<rparr> 0 = [0, 0, 0] \<and>
   V \<lparr>iso_E = 1, iso_I = 1, iso_I_varer = [], iso_pos_I_varier = [], iso_L = - 1,
      iso_division = 2\<rparr> 0 = [0, 0, 0]"
proof -
  let ?s = "\<lparr>iso_E = 1, iso_I = 1, iso_I_varer = [], iso_pos_I_varier = [], iso_L = - 1,
             iso_division = 2\<rparr>"
  have a: "alpha ?s = [0, - (1 / 2), - 1]"
    by (simp add: alpha_def upt_rec)
  have h: "iso_L ?s < 0" "0 \<le> iso_division ?s" by simp_all
  from load_beyond_span[OF h] a show ?thesis by (simp add: numeral_eq_Suc)
qed

subsection \<open>Construction of a span\<close>

lemma verifier_positions_None:
  "verifier_positions L ps = None \<longleftrightarrow> (\<forall>p \<in> set ps. 0 \<le> p \<and> p \<le> L)"
  by (induction ps) auto

lemma verifier_positions_Some:
  "verifier_positions L ps = Some e \<Longrightarrow> e = Position_superieure \<or> e = Position_negative"
  by (induction ps) (auto split: if_splits)

lemma strictement_croissantes_sorted:
  "strictement_croissantes ps \<longleftrightarrow> sorted_wrt (<) ps"
  by (induction ps rule: strictement_croissantes.induct) (auto simp: not_le intro: less_trans)

lemma isostatique_var_cases:
  "isostatique_var L E Iv pos D =
     (if length Iv = 1
      then (if D + 1 < 0 then Inl Length_error
            else Inr \<lparr>iso_E = E, iso_I = 0, iso_I_varer = [Iv ! 0, Iv ! 0],
                      iso_pos_I_varier = [0, L], iso_L = L, iso_division = D\<rparr>)
      else if length Iv \<noteq> length pos then Inl Taille_I_varier
      else if pos = [] then Inl Undefined_behaviour
      else if last pos \<noteq> L then Inl Derniere_position
      else if D + 1 < 0 then Inl Length_error
      else Inr \<lparr>iso_E = E, iso_I = 0, iso_I_varer = Iv, iso_pos_I_varier = pos,
                iso_L = L, iso_division = D\<rparr>)"
  by (simp add: isostatique_var_def normalise_inertia_def)

lemma travee_var_Inr_iff:
  assumes "- 1 \<le> D"
  shows "(\<exists>t. travee_var L E Iv pos D = Inr t) \<longleftrightarrow>
           length Iv = length pos \<and> pos \<noteq> [] \<and> (\<forall>p \<in> set pos. 0 \<le> p \<and> p \<le> L) \<and>
           sorted_wrt (<) pos \<and> (length Iv \<noteq> 1 \<longrightarrow> last pos = L)"
proof (cases "verifier_positions L pos")
  case None
  then have r: "\<forall>p \<in> set pos. 0 \<le> p \<and> p \<le> L" by (simp add: verifier_positions_None)
  show ?thesis
    using assms None r
    by (auto simp: travee_var_def isostatique_var_cases strictement_croissantes_sorted
          split: if_splits)
next
  case (Some e)
  then have "\<not> (\<forall>p \<in> set pos. 0 \<le> p \<and> p \<le> L)"
    using verifier_positions_None[of L pos] by simp
  then show ?thesis
    using Some by (auto simp: travee_var_def split: sum.splits)
qed

lemma travee_var_Inl:
  assumes "- 1 \<le> D" and "travee_var L E Iv pos D = Inl e"
  shows "if Iv = [] \<and> pos = [] then e = Undefined_behaviour else is_validation_error e"
proof (cases "verifier_positions L pos")
  case None
  show ?thesis
    using assms None
    by (auto simp: travee_var_def isostatique_var_cases is_validation_error_def
          split: if_splits)
next
  case (Some e')
  then have e': "e' = Position_superieure \<or> e' = Position_negative"
    by (rule verifier_positions_Some)
  from Some have "pos \<noteq> []" by auto
  then show ?thesis
    using assms Some e'
    by (auto simp: travee_var_def isostatique_var_cases is_validation_error_def
          split: if_splits)
qed

text \<open>
  C7, as the constructors behave.  Neither \<open>L\<close> nor \<open>division\<close> is validated by a
  single-span solver: for \<open>-1 \<le> division < 2147483647\<close> (so that \<^verbatim>\<open>division + 1\<close> is a
  non-negative \<^verbatim>\<open>int\<close>) the constant-inertia constructor raises no error.  For such a
  \<open>division\<close> and tables that are not both empty, the variable-inertia constructor
  succeeds exactly when the two tables have the same size, every position lies in
  \<open>[0, L]\<close>, the positions are strictly increasing and, unless the table has a single
  value (it is then replaced by the table \<open>{v, v}\<close> at \<open>{0, L}\<close>), the last position is
  \<open>L\<close>; and when it fails, it raises a validation error.
\<close>

theorem span_construction:
  assumes "- 1 \<le> D" and "D < 2147483647"
  shows "\<not> isl (travee_const L E I D) \<and>
         (Iv \<noteq> [] \<or> pos \<noteq> [] \<longrightarrow>
            ((\<exists>t. travee_var L E Iv pos D = Inr t) \<longleftrightarrow>
               length Iv = length pos \<and> (\<forall>p \<in> set pos. 0 \<le> p \<and> p \<le> L) \<and>
               sorted_wrt (<) pos \<and> (length Iv \<noteq> 1 \<longrightarrow> last pos = L)) \<and>
            (\<forall>e. travee_var L E Iv pos D = Inl e \<longrightarrow> is_validation_error e))"
proof -
  have c: "\<not> isl (travee_const L E I D)"
    using assms(1) by (simp add: travee_const_def isostatique_const_def)
  have v: "((\<exists>t. travee_var L E Iv pos D = Inr t) \<longleftrightarrow>
               length Iv = length pos \<and> (\<forall>p \<in> set pos. 0 \<le> p \<and> p \<le> L) \<and>
               sorted_wrt (<) pos \<and> (length Iv \<noteq> 1 \<longrightarrow> last pos = L)) \<and>
            (\<forall>e. travee_var L E Iv pos D = Inl e \<longrightarrow> is_validation_error e)"
    if ne: "Iv \<noteq> [] \<or> pos \<noteq> []"
  proof -
    have "length Iv = length pos \<Longrightarrow> pos \<noteq> []" using ne by auto
    then have "(\<exists>t. travee_var L E Iv pos D = Inr t) \<longleftrightarrow>
               length Iv = length pos \<and> (\<forall>p \<in> set pos. 0 \<le> p \<and> p \<le> L) \<and>
               sorted_wrt (<) pos \<and> (length Iv \<noteq> 1 \<longrightarrow> last pos = L)"
      unfolding travee_var_Inr_iff[OF assms(1), of L E Iv pos] by blast
    moreover have "is_validation_error e" if "travee_var L E Iv pos D = Inl e" for e
      using travee_var_Inl[OF assms(1) that] ne by (auto split: if_splits)
    ultimately show ?thesis by blast
  qed
  from c v show ?thesis by blast
qed

theorem span_construction_witness:
  "\<not> isl (travee_const 5 1 1 4) \<and> \<not> isl (travee_var 5 1 [1, 2] [0, 5] 4) \<and>
   travee_var 5 1 [1, 2] [0, 4] 4 = Inl Derniere_position \<and>
   is_validation_error Derniere_position"
proof -
  have h: "- 1 \<le> (4::int)" "(4::int) < 2147483647" by simp_all
  note t = span_construction[OF h, of 5 1 1 "[1, 2]" "[0, 5]"]
  note u = span_construction[OF h, of 5 1 1 "[1, 2]" "[0, 4]"]
  have a: "\<not> isl (travee_const 5 1 1 4)" using t by blast
  have "\<exists>t. travee_var 5 1 [1, 2] [0, 5] 4 = Inr t"
    using t[THEN conjunct2] by simp
  then have b: "\<not> isl (travee_var 5 1 [1, 2] [0, 5] 4)" by auto
  have c: "travee_var 5 1 [1, 2] [0, 4] 4 = Inl Derniere_position"
    by (simp add: travee_var_def isostatique_var_cases)
  have d: "is_validation_error Derniere_position"
    using u[THEN conjunct2] c by simp
  show ?thesis using a b c d by simp
qed

text \<open>
  The claim C7 fails as stated: a span of length \<open>-1\<close> with \<open>division = 0\<close> is
  constructed without any error, and so is a span of length 5 whose one-value table
  has its only position at 3, not at \<open>L\<close>.
\<close>

theorem span_construction_counterexample:
  "travee_const (- 1) 1 1 0 =
     Inr \<lparr>iso_E = 1, iso_I = 1, iso_I_varer = [], iso_pos_I_varier = [], iso_L = - 1,
          iso_division = 0, Young = 1, longueur = - 1, Inertie = 1,
          tr_pos_I_varier = [], tr_I_varer = []\<rparr> \<and>
   travee_var 5 1 [5] [3] 4 =
     Inr \<lparr>iso_E = 1, iso_I = 0, iso_I_varer = [5, 5], iso_pos_I_varier = [0, 5], iso_L = 5,
          iso_division = 4, Young = 1, longueur = 5, Inertie = 0,
          tr_pos_I_varier = [3], tr_I_varer = [5]\<rparr>"
  by (simp add: travee_const_def isostatique_const_def travee_var_def isostatique_var_cases)

subsection \<open>A table with a single inertia value\<close>

lemma segment_two_point:
  assumes "0 \<le> x" and "x \<le> L"
  shows "segment [0, L] x = Some 0"
  using assms by (simp add: segment_def)

lemma map_segment_alpha:
  assumes "0 < iso_L s" and "1 \<le> iso_division s"
  shows "map (\<lambda>i. case segment [0, iso_L s] i of Some j \<Rightarrow> f j i | None \<Rightarrow> g i) (alpha s)
           = map (f 0) (alpha s)"
proof (rule map_cong[OF refl])
  fix x assume "x \<in> set (alpha s)"
  then have "0 \<le> x \<and> x \<le> iso_L s" by (rule alpha_range[OF assms])
  then show "(case segment [0, iso_L s] x of Some j \<Rightarrow> f j x | None \<Rightarrow> g x) = f 0 x"
    by (simp add: segment_two_point)
qed

text \<open>
  C4, as far as it holds.  For \<open>L > 0\<close> and \<open>division \<ge> 1\<close>, the base constructor
  turns the one-value table \<open>[v]\<close> into the values \<open>[v, v]\<close> at \<open>[0, L]\<close>, and shear,
  moment, rotation and deflection are then those of the constant-inertia span with
  \<open>I = v\<close> for every load position.  A span built from the two-point table has the
  coefficients \<open>a\<close> and \<open>b\<close> of the constant-inertia span, but its coefficient \<open>c\<close> is
  three times the constant one (\<open>L / (E v)\<close> instead of \<open>L / (3 E v)\<close>); and a span built
  directly from the one-value table keeps that table in its own members, so that its
  three sums are empty and \<open>a = b = c = 0\<close>.
\<close>

theorem single_value_table:
  assumes "0 < L" and "1 \<le> D" and "0 \<le> p" and "p \<le> L"
  shows "\<exists>s sc t tc t1.
           isostatique_var L E [v] [p] D = Inr s \<and> isostatique_const L E v D = Inr sc \<and>
           iso_I_varer s = [v, v] \<and> iso_pos_I_varier s = [0, L] \<and>
           (\<forall>sigma. T s sigma False = T sc sigma False \<and> T s sigma True = T sc sigma True \<and>
                     M s sigma = M sc sigma \<and> OMEGA s sigma = OMEGA sc sigma \<and>
                     V s sigma = V sc sigma) \<and>
           travee_var L E [v, v] [0, L] D = Inr t \<and> travee_const L E v D = Inr tc \<and>
           travee_a t = travee_a tc \<and> travee_b t = travee_b tc \<and>
           travee_c t = 3 * travee_c tc \<and>
           travee_var L E [v] [p] D = Inr t1 \<and>
           travee_a t1 = 0 \<and> travee_b t1 = 0 \<and> travee_c t1 = 0"
proof -
  define s where "s = \<lparr>iso_E = E, iso_I = 0, iso_I_varer = [v, v],
                      iso_pos_I_varier = [0, L], iso_L = L, iso_division = D\<rparr>"
  define sc where "sc = \<lparr>iso_E = E, iso_I = v, iso_I_varer = [],
                      iso_pos_I_varier = [], iso_L = L, iso_division = D\<rparr>"
  define t where "t = \<lparr>iso_E = E, iso_I = 0, iso_I_varer = [v, v],
                      iso_pos_I_varier = [0, L], iso_L = L, iso_division = D,
                      Young = E, longueur = L, Inertie = 0,
                      tr_pos_I_varier = [0, L], tr_I_varer = [v, v]\<rparr>"
  define tc where "tc = \<lparr>iso_E = E, iso_I = v, iso_I_varer = [],
                      iso_pos_I_varier = [], iso_L = L, iso_division = D,
                      Young = E, longueur = L, Inertie = v,
                      tr_pos_I_varier = [], tr_I_varer = []\<rparr>"
  define t1 where "t1 = \<lparr>iso_E = E, iso_I = 0, iso_I_varer = [v, v],
                      iso_pos_I_varier = [0, L], iso_L = L, iso_division = D,
                      Young = E, longueur = L, Inertie = 0,
                      tr_pos_I_varier = [p], tr_I_varer = [v]\<rparr>"
  have c1: "isostatique_var L E [v] [p] D = Inr s"
    using assms by (simp add: isostatique_var_cases s_def)
  have c2: "isostatique_const L E v D = Inr sc"
    using assms by (simp add: isostatique_const_def sc_def)
  have al: "alpha s = alpha sc" by (simp add: alpha_def s_def sc_def)
  have Ls: "iso_L s = L" "iso_L sc = L" "iso_division s = D" "iso_division sc = D"
    by (simp_all add: s_def sc_def)
  have pos: "0 < iso_L sc" "1 \<le> iso_division sc" using assms Ls by simp_all
  have eqT: "T s sigma b = T sc sigma b" for sigma b
    unfolding T_def T_valeurs_def T_coordonne_def al Ls by (rule refl)
  have eqM: "M s sigma = M sc sigma" for sigma
    unfolding M_def al Ls by (rule refl)
  have eqO: "OMEGA s sigma = OMEGA sc sigma" for sigma
  proof -
    have "OMEGA s sigma = fonct_OMEGA sigma L E (alpha sc) [0, L] [v, v]"
      by (simp add: OMEGA_def s_def al[unfolded s_def])
    also have "\<dots> = (if sigma \<le> L then map (ohm_formule L E v sigma) (alpha sc)
                      else replicate (length (alpha sc)) 0)"
      using map_segment_alpha[OF pos, where f="\<lambda>j. ohm_formule L E ([v, v] ! j) sigma"
              and g="\<lambda>i. 0"]
      by (simp add: fonct_OMEGA_def Ls)
    also have "\<dots> = OMEGA sc sigma"
      by (simp add: OMEGA_def sc_def)
    finally show ?thesis .
  qed
  have eqV: "V s sigma = V sc sigma" for sigma
  proof -
    have "V s sigma = fonct_V sigma L E (alpha sc) [0, L] [v, v]"
      by (simp add: V_def s_def al[unfolded s_def])
    also have "\<dots> = (if sigma \<le> L then map (fleche_formule L E v sigma) (alpha sc)
                      else replicate (length (alpha sc)) 0)"
      using map_segment_alpha[OF pos, where f="\<lambda>j. fleche_formule L E ([v, v] ! j) sigma"
              and g="\<lambda>i. 0"]
      by (simp add: fonct_V_def Ls)
    also have "\<dots> = V sc sigma"
      by (simp add: V_def sc_def)
    finally show ?thesis .
  qed
  have c3: "travee_var L E [v, v] [0, L] D = Inr t"
    using assms by (simp add: travee_var_def isostatique_var_cases t_def)
  have c4: "travee_const L E v D = Inr tc"
    using assms by (simp add: travee_const_def isostatique_const_def tc_def)
  have c5: "travee_var L E [v] [p] D = Inr t1"
    using assms by (simp add: travee_var_def isostatique_var_cases t1_def)
  have L0: "L \<noteq> 0" using assms by simp
  have ea: "travee_a t = travee_a tc"
    using L0 by (simp add: travee_a_def t_def tc_def)
  have eb: "travee_b t = travee_b tc"
    using L0 by (simp add: travee_b_def B_def t_def tc_def power2_eq_square power3_eq_cube
                  field_simps)
  have ec: "travee_c t = 3 * travee_c tc"
    using L0 by (simp add: travee_c_def t_def tc_def power2_eq_square power3_eq_cube
                  field_simps)
  have z: "travee_a t1 = 0" "travee_b t1 = 0" "travee_c t1 = 0"
    by (simp_all add: travee_a_def travee_b_def travee_c_def t1_def)
  have p1: "iso_I_varer s = [v, v] \<and> iso_pos_I_varier s = [0, L]" by (simp add: s_def)
  have p2: "\<forall>sigma. T s sigma False = T sc sigma False \<and> T s sigma True = T sc sigma True \<and>
                     M s sigma = M sc sigma \<and> OMEGA s sigma = OMEGA sc sigma \<and>
                     V s sigma = V sc sigma"
    using eqT eqM eqO eqV by blast
  show ?thesis
    using c1 c2 p1 p2 c3 c4 ea eb ec c5 z by blast
qed

theorem single_value_table_witness:
  "(\<exists>t tc. travee_var 5 1 [5, 5] [0, 5] 4 = Inr t \<and> travee_const 5 1 5 4 = Inr tc \<and>
      travee_a t = 1 / 3 \<and> travee_a tc = 1 / 3 \<and> travee_b t = 1 / 6 \<and> travee_b tc = 1 / 6 \<and>
      travee_c t = 1 \<and> travee_c tc = 1 / 3) \<and>
   (\<exists>t1. travee_var 5 1 [5] [5] 4 = Inr t1 \<and>
      travee_a t1 = 0 \<and> travee_b t1 = 0 \<and> travee_c t1 = 0)"
proof -
  have h: "(0::real) < 5" "(1::int) \<le> 4" "(0::real) \<le> 5" "(5::real) \<le> 5" by simp_all
  from single_value_table[OF h, of 1 5]
  obtain t tc t1 where
    t: "travee_var 5 1 [5, 5] [0, 5] 4 = Inr t" and tc: "travee_const 5 1 5 4 = Inr tc"
    and e: "travee_a t = travee_a tc" "travee_b t = travee_b tc" "travee_c t = 3 * travee_c tc"
    and t1: "travee_var 5 1 [5] [5] 4 = Inr t1"
      "travee_a t1 = 0" "travee_b t1 = 0" "travee_c t1 = 0"
    by blast
  have tcv: "tc = \<lparr>iso_E = 1, iso_I = 5, iso_I_varer = [], iso_pos_I_varier = [], iso_L = 5,
                   iso_division = 4, Young = 1, longueur = 5, Inertie = 5,
                   tr_pos_I_varier = [], tr_I_varer = []\<rparr>"
    using tc by (simp add: travee_const_def isostatique_const_def)
  have v: "travee_a tc = 1 / 3" "travee_b tc = 1 / 6" "travee_c tc = 1 / 3"
    by (simp_all add: tcv travee_a_def travee_b_def travee_c_def)
  show ?thesis using t tc e t1 v by simp
qed

subsection \<open>Bounds of the trapezoid summation\<close>

lemma borne_boucle_vide: "borne_boucle 0 = 2 ^ 64 - 1"
  by (simp add: borne_boucle_def unsigned_minus_1_eq_mask mask_eq_exp_minus_1)

lemma borne_boucle_non_vide:
  assumes "0 < n" and "n < 2 ^ 64"
  shows "borne_boucle n = n - 1"
proof -
  have "(word_of_nat n :: 64 word) \<noteq> 0"
    using assms by (intro of_nat_neq_0) simp_all
  then have "unat ((word_of_nat n :: 64 word) - 1) = unat (word_of_nat n :: 64 word) - 1"
    by (rule unat_minus_one)
  also have "unat (word_of_nat n :: 64 word) = n"
    using assms by (simp add: unat_of_nat)
  finally show ?thesis by (simp add: borne_boucle_def)
qed

lemma trapeze_loop_in_bounds:
  assumes "borne < length x" and "length y = length x"
  shows "trapeze_loop x y borne i aire e \<noteq> Inl Undefined_behaviour"
  using assms
proof (induction x y borne i aire e rule: trapeze_loop.induct)
  case (1 x y borne i aire e)
  show ?case
  proof (cases "i < borne")
    case False
    then show ?thesis by (subst trapeze_loop.simps) simp
  next
    case True
    with "1.prems" have b: "i + 1 < length x" "i + 1 < length y" by simp_all
    show ?thesis
    proof (cases "x ! (i + 1) - x ! i \<le> 0")
      case neg: True
      then show ?thesis using True b by (subst trapeze_loop.simps) simp
    next
      case pos: False
      have "trapeze_loop x y borne (i + 1) (aire + (y ! i + y ! (i + 1)) * (x ! (i + 1) - x ! i) / 2)
              (e + ((aire - (aire + (y ! i + y ! (i + 1)) * (x ! (i + 1) - x ! i) / 2))
                     + (y ! i + y ! (i + 1)) * (x ! (i + 1) - x ! i) / 2))
            \<noteq> Inl Undefined_behaviour"
        using True b pos "1.prems" by (intro "1.IH") (simp_all add: Let_def)
      then show ?thesis using True b pos
        by (subst trapeze_loop.simps) (simp add: Let_def)
    qed
  qed
qed

lemma trapeze_vide: "trapeze [] [] = Inl Undefined_behaviour"
proof -
  have "trapeze_loop [] [] (2 ^ 64 - 1) 0 0 0 = Inl Undefined_behaviour"
    by (subst trapeze_loop.simps) simp
  then show ?thesis by (simp add: trapeze_def borne_boucle_vide)
qed

text \<open>
  C10, as the code behaves.  For the pair of two empty vectors, which passes both
  validations, the loop bound \<^verbatim>\<open>x.size() - 1\<close> wraps to \<open>2^64 - 1\<close> and the first
  iteration reads \<^verbatim>\<open>x[1]\<close> outside the vector.  For every non-empty pair of equal length
  (below \<open>2^64\<close> elements) every read of the loop is within bounds, and the function
  returns a value or one of its errors.
\<close>

theorem trapeze_reads:
  "trapeze [] [] = Inl Undefined_behaviour \<and>
   (x \<noteq> [] \<and> length x = length y \<and> length x < 2 ^ 64
      \<longrightarrow> trapeze x y \<noteq> Inl Undefined_behaviour)"
proof -
  have "trapeze x y \<noteq> Inl Undefined_behaviour"
    if h: "x \<noteq> []" "length x = length y" "length x < 2 ^ 64"
  proof (cases "sorted x")
    case False
    then show ?thesis using h(2) by (simp add: trapeze_def)
  next
    case True
    have n: "0 < length x" using h(1) by simp
    have b: "borne_boucle (length x) = length x - 1"
      using n h(3) by (rule borne_boucle_non_vide)
    have "length x - 1 < length x" using n by simp
    from trapeze_loop_in_bounds[OF this h(2)[symmetric], of 0 0 0]
    have l: "trapeze_loop x y (length x - 1) 0 0 0 \<noteq> Inl Undefined_behaviour" .
    have "trapeze x y =
            (case trapeze_loop x y (length x - 1) 0 0 0 of
               Inl e \<Rightarrow> Inl e
             | Inr (aire, erreur_accumulee) \<Rightarrow> Inr (aire + erreur_accumulee))"
      unfolding trapeze_def b using True h(2) by simp
    with l show ?thesis
      by (cases "trapeze_loop x y (length x - 1) 0 0 0") auto
  qed
  with trapeze_vide show ?thesis by blast
qed

theorem trapeze_reads_witness:
  "trapeze [0, 1, 2] [1, 1, 1] \<noteq> Inl Undefined_behaviour \<and>
   trapeze [0, 1, 2] [1, 1, 1] = Inr 2"
proof -
  have "[0, 1, 2 :: real] \<noteq> [] \<and> length [0, 1, 2 :: real] = length [1, 1, 1 :: real]
          \<and> length [0, 1, 2 :: real] < 2 ^ 64"
    by simp
  with trapeze_reads[of "[0, 1, 2]" "[1, 1, 1]"]
  have a: "trapeze [0, 1, 2] [1, 1, 1] \<noteq> Inl Undefined_behaviour" by blast
  have b: "borne_boucle (Suc (Suc (Suc 0))) = 2"
    using borne_boucle_non_vide[of 3] by (simp add: numeral_3_eq_3)
  have "trapeze_loop [0, 1, 2] [1, 1, 1] 2 0 0 0 = Inr (2, 0)"
    by (simp add: trapeze_loop.simps Let_def)
  then have "trapeze [0, 1, 2] [1, 1, 1] = Inr 2"
    by (simp add: trapeze_def b)
  with a show ?thesis by simp
qed

subsection \<open>Superposition of the bending moment\<close>

lemma length_concat_map_upt:
  assumes "\<forall>i < n. length (f i) = m"
  shows "length (concat (map f [0..<n])) = n * m"
  using assms by (induction n) simp_all

lemma concat_map_upt_nth:
  assumes "\<forall>i < n. length (f i) = m" and "i < n" and "j < m"
  shows "concat (map f [0..<n]) ! (i * m + j) = f i ! j"
  using assms
proof (induction n)
  case 0
  then show ?case by simp
next
  case (Suc n)
  have len: "length (concat (map f [0..<n])) = n * m"
    using Suc.prems(1) by (intro length_concat_map_upt) simp
  show ?case
  proof (cases "i < n")
    case True
    have "i * m + j < i * m + m" using Suc.prems by simp
    also have "\<dots> = Suc i * m" by simp
    also have "\<dots> \<le> n * m" using True by (intro mult_le_mono1) simp
    finally have "i * m + j < n * m" .
    moreover have "concat (map f [0..<n]) ! (i * m + j) = f i ! j"
      using Suc.IH True Suc.prems by simp
    ultimately show ?thesis using len by (simp add: nth_append)
  next
    case False
    with Suc.prems have "i = n" by simp
    then show ?thesis using len by (simp add: nth_append)
  qed
qed

lemma M_flechissant_ligne:
  assumes "t < nombre_travee h" and "k < length (abscisse h ! t)"
  shows "M_flechissant h ! t ! k =
           concat (map (\<lambda>i. map (\<lambda>j.
              (if t = i then Mu_total h ! t ! k ! j else 0)
                + interpolate (tr_G_D h ! i ! t ! j) (tr_G_D h ! i ! (t + 1) ! j)
                    (abscisse h ! t ! k) (L_tr h ! t))
             (positions h)) [0..<nombre_travee h])"
proof -
  have "M_flechissant h ! t ! k =
          concat (map (\<lambda>i. map (\<lambda>j.
              (if t = i
               then Mu_total h ! t ! k ! j
                      + interpolate (tr_G_D h ! i ! t ! j) (tr_G_D h ! i ! (t + 1) ! j)
                          (abscisse h ! t ! k) (L_tr h ! t)
               else interpolate (tr_G_D h ! i ! t ! j) (tr_G_D h ! i ! (t + 1) ! j)
                      (abscisse h ! t ! k) (L_tr h ! t)))
             (positions h)) [0..<nombre_travee h])"
  proof -
    have "M_flechissant h ! t ! k = M_flechissant_section h t k"
      using assms by (simp add: M_flechissant_def)
    then show ?thesis unfolding M_flechissant_section_def Let_def .
  qed
  also have "(\<lambda>i. map (\<lambda>j.
              (if t = i
               then Mu_total h ! t ! k ! j
                      + interpolate (tr_G_D h ! i ! t ! j) (tr_G_D h ! i ! (t + 1) ! j)
                          (abscisse h ! t ! k) (L_tr h ! t)
               else interpolate (tr_G_D h ! i ! t ! j) (tr_G_D h ! i ! (t + 1) ! j)
                      (abscisse h ! t ! k) (L_tr h ! t)))
             (positions h))
           = (\<lambda>i. map (\<lambda>j.
              (if t = i then Mu_total h ! t ! k ! j else 0)
                + interpolate (tr_G_D h ! i ! t ! j) (tr_G_D h ! i ! (t + 1) ! j)
                    (abscisse h ! t ! k) (L_tr h ! t))
             (positions h))"
    by (intro ext map_cong refl) auto
  finally show ?thesis .
qed

lemma G_D_shape:
  assumes "i < nombre_travee h"
  shows "length (tr_G_D h) = nombre_travee h"
    and "length (tr_G_D h ! i) = nombre_travee h + 1"
    and "\<forall>r \<in> set (tr_G_D h ! i). length r = length (positions h)"
proof -
  have g: "length (moment_au_appuit_travee_charger_gauche h ! i) = length (positions h)"
    using assms by (simp add: moment_au_appuit_travee_charger_gauche_def)
  have d: "length (moment_au_appuit_travee_charger_droite h ! i) = length (positions h)"
    using assms by (simp add: moment_au_appuit_travee_charger_droite_def)
  have e: "tr_G_D h ! i = m_appuis_gauche h i @ m_appuis_droite h i"
    using assms by (simp add: tr_G_D_def)
  show "length (tr_G_D h) = nombre_travee h" by (simp add: tr_G_D_def)
  show "length (tr_G_D h ! i) = nombre_travee h + 1"
    unfolding e using assms by (simp add: m_appuis_gauche_def m_appuis_droite_def)
  show "\<forall>r \<in> set (tr_G_D h ! i). length r = length (positions h)"
    unfolding e using g d by (auto simp: m_appuis_gauche_def m_appuis_droite_def Let_def)
qed

lemma length_M_grid:
  assumes "0 < iso_L s" and "1 \<le> iso_division s" and "k < length (alpha s)"
  shows "length (M s (alpha s ! k)) = length (alpha s)"
proof -
  have "alpha s ! k \<le> iso_L s"
    using alpha_range[OF assms(1,2), of "alpha s ! k"] assms(3) by simp
  then show ?thesis by (simp add: M_eq_moment_at)
qed

lemma construire_travees_map:
  assumes "\<And>i. i \<in> set js \<Longrightarrow> f i = Inr (g i)"
  shows "construire_travees f js = Inr (map g js)"
  using assms by (induction js) simp_all

lemma hyperstatique_const_Inr:
  assumes "hyperstatique_const Ls Es Is D = Inr h"
  shows "1 \<le> D" and "L_tr h = Ls" and "nombre_travee h = length Ls"
    and "length (iso_cache h) = length Ls"
    and "\<And>t. t < length Ls \<Longrightarrow> iso_L (iso_cache h ! t) = Ls ! t"
    and "\<And>t. t < length Ls \<Longrightarrow> iso_division (iso_cache h ! t) = D"
    and "division h = D"
proof -
  define g where "g = (\<lambda>i. \<lparr>iso_E = Es ! i, iso_I = Is ! i, iso_I_varer = [],
      iso_pos_I_varier = [], iso_L = Ls ! i, iso_division = D, Young = Es ! i,
      longueur = Ls ! i, Inertie = Is ! i, tr_pos_I_varier = [], tr_I_varer = []\<rparr>)"
  define h0 where "h0 = \<lparr>L_tr = Ls, E_tr = Es, I_tr = Is, division = D,
      nombre_travee = length Ls, I_var = None, pos_I_var = None, iso_cache = []\<rparr>"
  from assms have D: "0 < D" and ini: "initialiser_donnees h0 = Inr h"
    by (auto simp: hyperstatique_const_def h0_def Let_def split: if_splits)
  have tc: "travee_const (Ls ! i) (Es ! i) (Is ! i) D = Inr (g i)" for i
    using D by (simp add: travee_const_def isostatique_const_def g_def)
  have "mise_en_place h0 =
          construire_travees (\<lambda>i. travee_const (Ls ! i) (Es ! i) (Is ! i) D) [0..<length Ls]"
    by (simp add: mise_en_place_def h0_def)
  also have "\<dots> = Inr (map g [0..<length Ls])"
    by (rule construire_travees_map) (rule tc)
  finally have "mise_en_place h0 = Inr (map g [0..<length Ls])" .
  with ini have h: "h = h0\<lparr>iso_cache := map g [0..<length Ls]\<rparr>"
    by (simp add: initialiser_donnees_def)
  show "1 \<le> D" using D by simp
  show "L_tr h = Ls" "nombre_travee h = length Ls" "division h = D"
    by (simp_all add: h h0_def)
  show "length (iso_cache h) = length Ls" by (simp add: h)
  show "iso_L (iso_cache h ! t) = Ls ! t" if "t < length Ls" for t
    using that by (simp add: h g_def)
  show "iso_division (iso_cache h ! t) = D" if "t < length Ls" for t
    using that by (simp add: h g_def)
qed

text \<open>
  Every structure that the constant-inertia constructor builds from positive span
  lengths keeps all the reads of \<^verbatim>\<open>M_flechissant\<close> within bounds.
\<close>

lemma lectures_hyperstatique_const:
  assumes c: "hyperstatique_const Ls Es Is D = Inr h" and lp: "\<forall>l \<in> set Ls. 0 < l"
    and t: "t < nombre_travee h" and i: "i < nombre_travee h"
    and k: "k < length (positions h)" and j: "j < length (positions h)"
  shows "lectures_dans_bornes h t k i j"
proof -
  note hc = hyperstatique_const_Inr[OF c]
  have tl: "t < length Ls" using t hc(3) by simp
  let ?tc = "iso_cache h ! t"
  have pos: "0 < iso_L ?tc" "1 \<le> iso_division ?tc"
    using hc(1) hc(5)[OF tl] hc(6)[OF tl] lp tl by simp_all
  have np: "length (positions h) = length (alpha ?tc)"
    using hc(1) hc(6)[OF tl] hc(7) by (simp add: positions_def length_alpha)
  have ab: "abscisse h ! t = alpha ?tc" "length (abscisse h) = length Ls"
    using tl hc(4) by (simp_all add: abscisse_def)
  have mu: "Mu_total h ! t = map (M ?tc) (alpha ?tc)" "length (Mu_total h) = length Ls"
    using tl hc(4) by (simp_all add: Mu_total_def moment_flechissant_def)
  have kl: "k < length (alpha ?tc)" using k np by simp
  have row: "length (Mu_total h ! t ! k) = length (alpha ?tc)"
    using kl length_M_grid[OF pos kl] by (simp add: mu)
  note gd = G_D_shape[OF i]
  have r1: "length (tr_G_D h ! i ! t) = length (positions h)"
    using gd(2,3) t by (simp add: all_set_conv_all_nth)
  have r2: "length (tr_G_D h ! i ! (t + 1)) = length (positions h)"
    using gd(2,3) t by (simp add: all_set_conv_all_nth)
  have own: "j < length (Mu_total h ! t ! k)"
    using row j np kl by (simp add: mu(1))
  have others: "t < length (L_tr h) \<and>
      t < length (abscisse h) \<and> k < length (abscisse h ! t) \<and>
      t < length (Mu_total h) \<and> k < length (Mu_total h ! t) \<and>
      i < length (tr_G_D h) \<and> t + 1 < length (tr_G_D h ! i) \<and>
      j < length (tr_G_D h ! i ! t) \<and> j < length (tr_G_D h ! i ! (t + 1))"
    using tl hc(2) ab mu kl gd(1,2) r1 r2 i t j by simp
  show ?thesis
    unfolding lectures_dans_bornes_def using others own by blast
qed

text \<open>
  C2.  For an observed span \<open>t\<close>, its \<open>k\<close>-th section of abscissa \<open>x\<close>, a loaded span
  \<open>i\<close> and a load position \<open>j \<le> division\<close>, all reads being within bounds, the entry
  of the hyperstatic moment surface sits at index \<open>i * (division + 1) + j\<close> of row
  \<open>[t][k]\<close> and is
  \<open>GAUCHE_DROITE[i][t][j] * (1 - x / L\<^sub>t) + GAUCHE_DROITE[i][t+1][j] * x / L\<^sub>t\<close>, the
  linear interpolation between the two support moments over the length \<open>L\<^sub>t\<close> of span
  \<open>t\<close>, to which the isostatic moment \<open>Mu_iso_total[t][k][j]\<close> is added when \<open>t = i\<close> and
  only then.
\<close>

theorem hyperstatic_moment_entry:
  assumes "t < nombre_travee h" and "k < length (abscisse h ! t)"
    and "i < nombre_travee h" and "j < length (positions h)"
    and "lectures_dans_bornes h t k i j"
  shows "length (M_flechissant h) = nombre_travee h \<and>
         length (M_flechissant h ! t) = length (abscisse h ! t) \<and>
         length (M_flechissant h ! t ! k) = nombre_travee h * length (positions h) \<and>
         M_flechissant h ! t ! k ! (i * length (positions h) + j) =
           (if t = i
            then Mu_total h ! t ! k ! j
                   + (tr_G_D h ! i ! t ! j * (1 - abscisse h ! t ! k / L_tr h ! t)
                      + tr_G_D h ! i ! (t + 1) ! j * (abscisse h ! t ! k) / L_tr h ! t)
            else tr_G_D h ! i ! t ! j * (1 - abscisse h ! t ! k / L_tr h ! t)
                   + tr_G_D h ! i ! (t + 1) ! j * (abscisse h ! t ! k) / L_tr h ! t)"
proof -
  let ?f = "\<lambda>i. map (\<lambda>j.
              (if t = i then Mu_total h ! t ! k ! j else 0)
                + interpolate (tr_G_D h ! i ! t ! j) (tr_G_D h ! i ! (t + 1) ! j)
                    (abscisse h ! t ! k) (L_tr h ! t))
             (positions h)"
  have l1: "length (M_flechissant h) = nombre_travee h"
    by (simp add: M_flechissant_def)
  have l2: "length (M_flechissant h ! t) = length (abscisse h ! t)"
    using assms(1) by (simp add: M_flechissant_def)
  have row: "M_flechissant h ! t ! k = concat (map ?f [0..<nombre_travee h])"
    by (rule M_flechissant_ligne[OF assms(1,2)])
  have "\<forall>i < nombre_travee h. length (?f i) = length (positions h)" by simp
  then have e: "concat (map ?f [0..<nombre_travee h]) ! (i * length (positions h) + j) = ?f i ! j"
    and l3: "length (concat (map ?f [0..<nombre_travee h]))
               = nombre_travee h * length (positions h)"
    using concat_map_upt_nth[of "nombre_travee h" ?f "length (positions h)" i j]
      length_concat_map_upt[of "nombre_travee h" ?f "length (positions h)"] assms(3,4)
    by blast+
  have pj: "positions h ! j = j" using assms(4) by (simp add: positions_def)
  have v: "?f i ! j =
             (if t = i then Mu_total h ! t ! k ! j else 0)
                + (tr_G_D h ! i ! t ! j * (1 - abscisse h ! t ! k / L_tr h ! t)
                      + tr_G_D h ! i ! (t + 1) ! j * (abscisse h ! t ! k) / L_tr h ! t)"
    using assms(4) by (simp add: pj interpolate_def)
  have l3': "length (M_flechissant h ! t ! k) = nombre_travee h * length (positions h)"
    unfolding row by (rule l3)
  have e': "M_flechissant h ! t ! k ! (i * length (positions h) + j) =
             (if t = i then Mu_total h ! t ! k ! j else 0)
                + (tr_G_D h ! i ! t ! j * (1 - abscisse h ! t ! k / L_tr h ! t)
                      + tr_G_D h ! i ! (t + 1) ! j * (abscisse h ! t ! k) / L_tr h ! t)"
    unfolding row e v by (rule refl)
  show ?thesis
    using l1 l2 l3' e' by simp
qed

theorem hyperstatic_moment_entry_witness:
  "hyperstatique_const [10, 10] [1, 1] [1, 1] 2 = Inr poutre_exemple \<and>
   M_flechissant poutre_exemple ! 1 ! 0 ! 1 = - (15 / 16) \<and>
   M_flechissant poutre_exemple ! 0 ! 2 ! 4 = - (15 / 16) \<and>
   M_flechissant poutre_exemple ! 0 ! 1 ! 4 = - (15 / 32) \<and>
   M_flechissant poutre_exemple ! 0 ! 1 ! 1 = 65 / 32"
proof -
  have c: "hyperstatique_const [10, 10] [1, 1] [1, 1] 2 = Inr poutre_exemple"
    by (simp add: hyperstatique_const_def initialiser_donnees_def mise_en_place_def
          travee_const_def isostatique_const_def poutre_exemple_def travee_exemple_def upt_rec)
  have a: "abscisse poutre_exemple = [[0, 5, 10], [0, 5, 10]]"
    by (simp add: abscisse_def poutre_exemple_def travee_exemple_def alpha_def upt_rec)
  have p: "positions poutre_exemple = [0, 1, 2]"
    by (simp add: positions_def poutre_exemple_def upt_rec)
  have g: "tr_G_D poutre_exemple =
             [[[0, 0, 0], [0, - (15 / 16), 0], [0, 0, 0]],
              [[0, 0, 0], [0, - (15 / 16), 0], [0, 0, 0]]]"
    by code_simp
  have m: "Mu_total poutre_exemple ! 0 ! Suc 0 ! Suc 0 = 5 / 2"
    by code_simp
  have l: "L_tr poutre_exemple ! 0 = 10" "L_tr poutre_exemple ! Suc 0 = 10"
    by (simp_all add: poutre_exemple_def)
  have n: "0 < nombre_travee poutre_exemple" "1 < nombre_travee poutre_exemple"
    by (simp_all add: poutre_exemple_def)
  have k: "0 < length (abscisse poutre_exemple ! 1)" "1 < length (abscisse poutre_exemple ! 0)"
    "2 < length (abscisse poutre_exemple ! 0)"
    by (simp_all add: a)
  have j: "1 < length (positions poutre_exemple)" by (simp add: p)
  have b1: "lectures_dans_bornes poutre_exemple 1 0 0 1" by code_simp
  have b2: "lectures_dans_bornes poutre_exemple 0 2 1 1" by code_simp
  have b3: "lectures_dans_bornes poutre_exemple 0 1 1 1" by code_simp
  have b4: "lectures_dans_bornes poutre_exemple 0 1 0 1" by code_simp
  note right_span = hyperstatic_moment_entry[OF n(2) k(1) n(1) j b1]
  note span_end = hyperstatic_moment_entry[OF n(1) k(3) n(2) j b2]
  note other = hyperstatic_moment_entry[OF n(1) k(2) n(2) j b3]
  note own = hyperstatic_moment_entry[OF n(1) k(2) n(1) j b4]
  have "M_flechissant poutre_exemple ! 1 ! 0 ! 1 = - (15 / 16)"
    using right_span by (simp add: a p g l eval_nat_numeral)
  moreover have "M_flechissant poutre_exemple ! 0 ! 2 ! 4 = - (15 / 16)"
    using span_end by (simp add: a p g l eval_nat_numeral)
  moreover have "M_flechissant poutre_exemple ! 0 ! 1 ! 4 = - (15 / 32)"
    using other by (simp add: a p g l eval_nat_numeral)
  moreover have "M_flechissant poutre_exemple ! 0 ! 1 ! 1 = 65 / 32"
    using own by (simp add: a p g l m)
  ultimately show ?thesis using c by simp
qed

subsection \<open>A single span has no redundant moment\<close>

lemma map_nth_upt: "length xs = n \<Longrightarrow> map (\<lambda>j. xs ! j) [0..<n] = xs"
  using map_nth[of xs] by simp

lemma map_alpha_upt: "map (\<lambda>k. f (xs ! k)) [0..<length xs] = map f xs"
proof -
  have "map (\<lambda>k. f (xs ! k)) [0..<length xs] = map f (map (\<lambda>k. xs ! k) [0..<length xs])"
    by simp
  also have "\<dots> = map f xs" by (simp only: map_nth)
  finally show ?thesis .
qed

lemma single_phy:
  assumes "nombre_travee h = 1"
  shows "hyp_phy h = [0]" and "hyp_phy_prime h = [0]"
proof -
  have n: "nb_travee (rap h) = 1" using assms by (simp add: rap_def)
  show "hyp_phy h = [0]"
    by (simp add: hyp_phy_def phy_def n phy_step_def)
  show "hyp_phy_prime h = [0]"
    by (simp add: hyp_phy_prime_def phy_prime_def n countdown_def phy_prime_step_def)
qed

lemma single_moment_appui:
  assumes "nombre_travee h = 1"
  shows "moment_au_appuit_travee_charger_gauche h = [replicate (length (positions h)) 0]"
    and "moment_au_appuit_travee_charger_droite h = [replicate (length (positions h)) 0]"
proof -
  note p = single_phy[OF assms]
  show "moment_au_appuit_travee_charger_gauche h = [replicate (length (positions h)) 0]"
    by (simp add: moment_au_appuit_travee_charger_gauche_def assms p map_replicate_const)
  show "moment_au_appuit_travee_charger_droite h = [replicate (length (positions h)) 0]"
    by (simp add: moment_au_appuit_travee_charger_droite_def assms p map_replicate_const)
qed

lemma single_G_D:
  assumes "nombre_travee h = 1"
  shows "tr_G_D h = [[replicate (length (positions h)) 0, replicate (length (positions h)) 0]]"
proof -
  note m = single_moment_appui[OF assms]
  have g: "m_appuis_gauche h 0 = [replicate (length (positions h)) 0]"
    by (simp add: m_appuis_gauche_def m)
  have d: "m_appuis_droite h 0 = [replicate (length (positions h)) 0]"
    by (simp add: m_appuis_droite_def m assms)
  show ?thesis by (simp add: tr_G_D_def assms g d)
qed

lemma single_G_D_nth:
  assumes "nombre_travee h = 1" and "j \<in> set (positions h)"
  shows "tr_G_D h ! 0 ! 0 ! j = 0" and "tr_G_D h ! 0 ! Suc 0 ! j = 0"
proof -
  have "j < length (positions h)" using assms(2) by (auto simp: positions_def)
  then show "tr_G_D h ! 0 ! 0 ! j = 0" and "tr_G_D h ! 0 ! Suc 0 ! j = 0"
    by (simp_all add: single_G_D[OF assms(1)])
qed

lemma fold_push:
  "fold (\<lambda>x (s, acc). (s, acc @ [g x])) xs (s, acc) = (s, acc @ map g xs)"
  by (induction xs arbitrary: acc) simp_all

lemma alpha_inj:
  assumes "0 < iso_L s" and "1 \<le> iso_division s"
    and "i \<le> nat (iso_division s)" and "j \<le> nat (iso_division s)"
  shows "alpha s ! i = alpha s ! j \<longleftrightarrow> i = j"
proof (cases i j rule: linorder_cases)
  case less
  then show ?thesis using alpha_strict[OF assms(1,2) less assms(4)] by simp
next
  case equal
  then show ?thesis by simp
next
  case greater
  then show ?thesis using alpha_strict[OF assms(1,2) greater assms(3)] by simp
qed

lemma length_OMEGA_const:
  "iso_I_varer s = [] \<Longrightarrow> length (OMEGA s sigma) = length (alpha s)"
  by (simp add: OMEGA_def)

lemma length_V_const:
  "iso_I_varer s = [] \<Longrightarrow> length (V s sigma) = length (alpha s)"
  by (simp add: V_def)

lemma single_tables:
  assumes "iso_cache h = [tc]"
  shows "abscisse h = [alpha tc]" and "Mu_total h = [moment_flechissant tc]"
    and "W_total h = [rotation tc]" and "V_total h = [fleche tc]"
    and "T_total h = [effort_tranchant tc]"
  using assms
  by (simp_all add: abscisse_def Mu_total_def W_total_def V_total_def T_total_def)

lemma single_positions:
  assumes "division h = iso_division tc" and "1 \<le> iso_division tc"
  shows "positions h = [0..<length (alpha tc)]"
proof -
  have "nat (iso_division tc + 1) = nat (iso_division tc) + 1" using assms(2) by simp
  then show ?thesis by (simp add: positions_def assms(1) length_alpha)
qed

lemma single_M_flechissant:
  assumes n1: "nombre_travee h = 1" and ic: "iso_cache h = [tc]"
    and dv: "division h = iso_division tc"
    and pos: "0 < iso_L tc" "1 \<le> iso_division tc"
  shows "M_flechissant h = [moment_flechissant tc]"
proof -
  note tb = single_tables[OF ic]
  note ps = single_positions[OF dv pos(2)]
  have row: "M_flechissant_section h 0 k = M tc (alpha tc ! k)" if k: "k < length (alpha tc)" for k
  proof -
    have "M_flechissant_section h 0 k
            = map (\<lambda>j. M tc (alpha tc ! k) ! j
                         + interpolate (tr_G_D h ! 0 ! 0 ! j) (tr_G_D h ! 0 ! (0 + 1) ! j)
                             (alpha tc ! k) (L_tr h ! 0)) (positions h)"
      using k by (simp add: M_flechissant_section_def n1 tb moment_flechissant_def)
    also have "\<dots> = map (\<lambda>j. M tc (alpha tc ! k) ! j) (positions h)"
      by (intro map_cong refl) (simp add: single_G_D_nth[OF n1] interpolate_def)
    also have "\<dots> = M tc (alpha tc ! k)"
      unfolding ps by (rule map_nth_upt) (rule length_M_grid[OF pos k])
    finally show ?thesis .
  qed
  have "M_flechissant h = [map (M_flechissant_section h 0) [0..<length (alpha tc)]]"
    by (simp add: M_flechissant_def n1 tb)
  also have "map (M_flechissant_section h 0) [0..<length (alpha tc)]
               = map (\<lambda>k. M tc (alpha tc ! k)) [0..<length (alpha tc)]"
    by (intro map_cong refl) (simp add: row)
  also have "\<dots> = map (M tc) (alpha tc)" by (rule map_alpha_upt)
  finally show ?thesis by (simp add: moment_flechissant_def)
qed

lemma chercher_inertie_const: "I_tr h \<noteq> [] \<Longrightarrow> chercher_inertie h t j tI = tI"
  by (simp add: chercher_inertie_def)

lemma single_W_rotaion:
  assumes n1: "nombre_travee h = 1" and ic: "iso_cache h = [tc]"
    and dv: "division h = iso_division tc" and it: "I_tr h \<noteq> []"
    and cst: "iso_I_varer tc = []" and pos: "1 \<le> iso_division tc"
  shows "W_rotaion h = [rotation tc]"
proof -
  note tb = single_tables[OF ic]
  note ps = single_positions[OF dv pos]
  have sec: "W_rotaion_section h 0 k tI = (tI, OMEGA tc (alpha tc ! k))"
    if k: "k \<in> set (positions h)" for k tI
  proof -
    have kl: "k < length (alpha tc)" using k by (simp add: ps)
    have Rot: "W_total h ! 0 ! k = OMEGA tc (alpha tc ! k)"
      using kl by (simp add: tb rotation_def)
    have "W_rotaion_section h 0 k tI
            = fold (\<lambda>j (tI, hyp_rot).
                  (let tI' = chercher_inertie h 0 j tI;
                       rotation_val =
                         calcul_rotation (tr_G_D h ! 0 ! 0 ! j) (tr_G_D h ! 0 ! (0 + 1) ! j)
                           (abscisse h ! 0 ! j) (L_tr h ! 0) (E_tr h ! 0) tI'
                   in (tI', hyp_rot @ [OMEGA tc (alpha tc ! k) ! j + rotation_val])))
                 (positions h) (tI, [])"
      by (simp add: W_rotaion_section_def n1 Rot)
    also have "\<dots> = fold (\<lambda>j (tI, hyp_rot). (tI, hyp_rot @ [OMEGA tc (alpha tc ! k) ! j]))
                 (positions h) (tI, [])"
      by (intro fold_cong refl)
        (simp add: chercher_inertie_const[OF it] single_G_D_nth[OF n1] calcul_rotation_def
           fun_eq_iff)
    also have "\<dots> = (tI, map (\<lambda>j. OMEGA tc (alpha tc ! k) ! j) (positions h))"
      by (simp add: fold_push)
    also have "map (\<lambda>j. OMEGA tc (alpha tc ! k) ! j) (positions h) = OMEGA tc (alpha tc ! k)"
      unfolding ps by (rule map_nth_upt) (rule length_OMEGA_const[OF cst])
    finally show ?thesis .
  qed
  have "fold (\<lambda>section (tI, rot_travee).
               (case W_rotaion_section h 0 section tI of
                  (tI', hyp_rot) \<Rightarrow> (tI', rot_travee @ [hyp_rot])))
          (positions h) (tI0, [])
        = fold (\<lambda>section (tI, rot_travee). (tI, rot_travee @ [OMEGA tc (alpha tc ! section)]))
          (positions h) (tI0, [])" for tI0
    by (intro fold_cong refl) (simp add: sec fun_eq_iff)
  also have "\<dots> tI0 = (tI0, map (\<lambda>section. OMEGA tc (alpha tc ! section)) (positions h))"
    for tI0
    by (simp add: fold_push)
  finally have "W_rotaion h = [map (\<lambda>section. OMEGA tc (alpha tc ! section)) (positions h)]"
    by (simp add: W_rotaion_def n1)
  also have "map (\<lambda>section. OMEGA tc (alpha tc ! section)) (positions h) = map (OMEGA tc) (alpha tc)"
    unfolding ps by (rule map_alpha_upt)
  finally show ?thesis by (simp add: rotation_def)
qed

lemma single_V_fleche:
  assumes n1: "nombre_travee h = 1" and ic: "iso_cache h = [tc]"
    and dv: "division h = iso_division tc" and it: "I_tr h \<noteq> []"
    and cst: "iso_I_varer tc = []" and pos: "1 \<le> iso_division tc"
  shows "V_fleche h = [fleche tc]"
proof -
  note tb = single_tables[OF ic]
  note ps = single_positions[OF dv pos]
  have sec: "V_fleche_section h 0 k tI = (tI, V tc (alpha tc ! k))"
    if k: "k \<in> set (positions h)" for k tI
  proof -
    have kl: "k < length (alpha tc)" using k by (simp add: ps)
    have Rot: "V_total h ! 0 ! k = V tc (alpha tc ! k)"
      using kl by (simp add: tb fleche_def)
    have "V_fleche_section h 0 k tI
            = fold (\<lambda>j (tI, hyp_rot).
                  (let tI' = chercher_inertie h 0 j tI;
                       fleche_val =
                         calcul_fleche (tr_G_D h ! 0 ! 0 ! j) (tr_G_D h ! 0 ! (0 + 1) ! j)
                           (abscisse h ! 0 ! j) (L_tr h ! 0) (E_tr h ! 0) tI'
                   in (tI', hyp_rot @ [V tc (alpha tc ! k) ! j + fleche_val])))
                 (positions h) (tI, [])"
      by (simp add: V_fleche_section_def n1 Rot)
    also have "\<dots> = fold (\<lambda>j (tI, hyp_rot). (tI, hyp_rot @ [V tc (alpha tc ! k) ! j]))
                 (positions h) (tI, [])"
      by (intro fold_cong refl)
        (simp add: chercher_inertie_const[OF it] single_G_D_nth[OF n1] calcul_fleche_def
           fun_eq_iff)
    also have "\<dots> = (tI, map (\<lambda>j. V tc (alpha tc ! k) ! j) (positions h))"
      by (simp add: fold_push)
    also have "map (\<lambda>j. V tc (alpha tc ! k) ! j) (positions h) = V tc (alpha tc ! k)"
      unfolding ps by (rule map_nth_upt) (rule length_V_const[OF cst])
    finally show ?thesis .
  qed
  have "fold (\<lambda>section (tI, rot_travee).
               (case V_fleche_section h 0 section tI of
                  (tI', hyp_rot) \<Rightarrow> (tI', rot_travee @ [hyp_rot])))
          (positions h) (tI0, [])
        = fold (\<lambda>section (tI, rot_travee). (tI, rot_travee @ [V tc (alpha tc ! section)]))
          (positions h) (tI0, [])" for tI0
    by (intro fold_cong refl) (simp add: sec fun_eq_iff)
  also have "\<dots> tI0 = (tI0, map (\<lambda>section. V tc (alpha tc ! section)) (positions h))"
    for tI0
    by (simp add: fold_push)
  finally have "V_fleche h = [map (\<lambda>section. V tc (alpha tc ! section)) (positions h)]"
    by (simp add: V_fleche_def n1)
  also have "map (\<lambda>section. V tc (alpha tc ! section)) (positions h) = map (V tc) (alpha tc)"
    unfolding ps by (rule map_alpha_upt)
  finally show ?thesis by (simp add: fleche_def)
qed

lemma compteur_walk:
  assumes "length Tv = n + 1" and "k < n" and "m \<le> n"
  shows "fold (\<lambda>j (c, acc). if j = k then (c + 2, acc @ [Tv ! c, Tv ! (c + 1)])
                              else (c + 1, acc @ [Tv ! c]))
           [0..<m] (0::nat, [])
         = (if k < m then m + 1 else m, take (if k < m then m + 1 else m) Tv)"
  using assms(3)
proof (induction m)
  case 0
  then show ?case by simp
next
  case (Suc m)
  let ?step = "\<lambda>j (c, acc). if j = k then (c + 2, acc @ [Tv ! c, Tv ! (c + 1)])
                              else (c + 1, acc @ [Tv ! c])"
  have IH: "fold ?step [0..<m] (0::nat, [])
              = (if k < m then m + 1 else m, take (if k < m then m + 1 else m) Tv)"
    using Suc by simp
  have st: "fold ?step [0..<Suc m] (0::nat, [])
              = ?step m (if k < m then m + 1 else m, take (if k < m then m + 1 else m) Tv)"
    by (simp add: IH)
  have lm: "m < length Tv" "Suc m < length Tv" using Suc.prems assms(1) by simp_all
  have t1: "take (Suc m) Tv = take m Tv @ [Tv ! m]"
    using lm(1) by (rule take_Suc_conv_app_nth)
  have t2: "take (Suc (Suc m)) Tv = take (Suc m) Tv @ [Tv ! Suc m]"
    using lm(2) by (rule take_Suc_conv_app_nth)
  show ?case
  proof (cases m k rule: linorder_cases)
    case less
    then show ?thesis unfolding st using t1 by simp
  next
    case equal
    then show ?thesis unfolding st using t1 t2 by simp
  next
    case greater
    then show ?thesis unfolding st using t2 by simp
  qed
qed

lemma length_T_valeurs_grid:
  assumes "0 < iso_L s" and "1 \<le> iso_division s" and "k < length (alpha s)"
  shows "length (T_valeurs s (alpha s ! k)) = length (alpha s) + 1"
proof -
  have k: "k \<le> nat (iso_division s)" using assms(3) by (simp add: length_alpha)
  note d = alpha_decompose[OF assms(1,2) k]
  show ?thesis
    unfolding T_valeurs_grid[OF assms(1,2) k] using d(4,5) k by (simp add: length_alpha)
qed

lemma single_T_effort_tranchant:
  assumes n1: "nombre_travee h = 1" and ic: "iso_cache h = [tc]"
    and dv: "division h = iso_division tc"
    and pos: "0 < iso_L tc" "1 \<le> iso_division tc"
  shows "T_effort_tranchant h = [effort_tranchant tc]"
proof -
  note tb = single_tables[OF ic]
  note ps = single_positions[OF dv pos(2)]
  have row: "T_effort_tranchant_section h 0 k = T tc (alpha tc ! k) False"
    if k: "k < length (alpha tc)" for k
  proof -
    define Tv where "Tv = T tc (alpha tc ! k) False"
    have TT: "T_total h ! 0 ! k = Tv"
      using k by (simp add: tb effort_tranchant_def Tv_def)
    have len: "length Tv = length (alpha tc) + 1"
      unfolding Tv_def T_def using length_T_valeurs_grid[OF pos k] by simp
    have TT': "effort_tranchant tc ! k = Tv"
      using TT by (simp add: tb)
    have "T_effort_tranchant_section h 0 k
            = snd (fold (\<lambda>j (compteur, hyp_T).
                   if alpha tc ! k = alpha tc ! j
                   then (compteur + 2,
                         hyp_T @ [Tv ! compteur
                                    + interpolate_effort_tranchant (tr_G_D h ! 0 ! 0 ! j)
                                        (tr_G_D h ! 0 ! Suc 0 ! j) (L_tr h ! 0),
                                  Tv ! (compteur + 1)
                                    + interpolate_effort_tranchant (tr_G_D h ! 0 ! 0 ! j)
                                        (tr_G_D h ! 0 ! Suc 0 ! j) (L_tr h ! 0)])
                   else (compteur + 1,
                         hyp_T @ [Tv ! compteur
                                    + interpolate_effort_tranchant (tr_G_D h ! 0 ! 0 ! j)
                                        (tr_G_D h ! 0 ! Suc 0 ! j) (L_tr h ! 0)]))
                 (positions h) (0::nat, []))"
      by (simp add: T_effort_tranchant_section_def n1 TT' tb Let_def)
    also have "fold (\<lambda>j (compteur, hyp_T).
                   if alpha tc ! k = alpha tc ! j
                   then (compteur + 2,
                         hyp_T @ [Tv ! compteur
                                    + interpolate_effort_tranchant (tr_G_D h ! 0 ! 0 ! j)
                                        (tr_G_D h ! 0 ! Suc 0 ! j) (L_tr h ! 0),
                                  Tv ! (compteur + 1)
                                    + interpolate_effort_tranchant (tr_G_D h ! 0 ! 0 ! j)
                                        (tr_G_D h ! 0 ! Suc 0 ! j) (L_tr h ! 0)])
                   else (compteur + 1,
                         hyp_T @ [Tv ! compteur
                                    + interpolate_effort_tranchant (tr_G_D h ! 0 ! 0 ! j)
                                        (tr_G_D h ! 0 ! Suc 0 ! j) (L_tr h ! 0)]))
                 (positions h) (0::nat, [])
               = fold (\<lambda>j (c, acc). if j = k then (c + 2, acc @ [Tv ! c, Tv ! (c + 1)])
                              else (c + 1, acc @ [Tv ! c]))
                 (positions h) (0::nat, [])"
    proof (intro fold_cong refl)
      fix j assume j: "j \<in> set (positions h)"
      then have jl: "j < length (alpha tc)" by (simp add: ps)
      have e: "alpha tc ! k = alpha tc ! j \<longleftrightarrow> j = k"
        using alpha_inj[OF pos, of k j] k jl by (auto simp: length_alpha)
      have z: "interpolate_effort_tranchant (tr_G_D h ! 0 ! 0 ! j)
                 (tr_G_D h ! 0 ! Suc 0 ! j) (L_tr h ! 0) = 0"
        by (simp add: single_G_D_nth[OF n1 j] interpolate_effort_tranchant_def)
      show "(\<lambda>(compteur, hyp_T).
                   if alpha tc ! k = alpha tc ! j
                   then (compteur + 2,
                         hyp_T @ [Tv ! compteur
                                    + interpolate_effort_tranchant (tr_G_D h ! 0 ! 0 ! j)
                                        (tr_G_D h ! 0 ! Suc 0 ! j) (L_tr h ! 0),
                                  Tv ! (compteur + 1)
                                    + interpolate_effort_tranchant (tr_G_D h ! 0 ! 0 ! j)
                                        (tr_G_D h ! 0 ! Suc 0 ! j) (L_tr h ! 0)])
                   else (compteur + 1,
                         hyp_T @ [Tv ! compteur
                                    + interpolate_effort_tranchant (tr_G_D h ! 0 ! 0 ! j)
                                        (tr_G_D h ! 0 ! Suc 0 ! j) (L_tr h ! 0)]))
            = (\<lambda>(c, acc). if j = k then (c + 2, acc @ [Tv ! c, Tv ! (c + 1)])
                              else (c + 1, acc @ [Tv ! c]))"
        unfolding z e by (simp add: fun_eq_iff)
    qed
    also have "\<dots> = (length (alpha tc) + 1, take (length (alpha tc) + 1) Tv)"
      unfolding ps using compteur_walk[OF len k, of "length (alpha tc)"] k by simp
    finally show ?thesis using len by (simp add: Tv_def)
  qed
  have "T_effort_tranchant h = [map (T_effort_tranchant_section h 0) [0..<length (alpha tc)]]"
    by (simp add: T_effort_tranchant_def n1 tb)
  also have "map (T_effort_tranchant_section h 0) [0..<length (alpha tc)]
               = map (\<lambda>k. T tc (alpha tc ! k) False) [0..<length (alpha tc)]"
    by (intro map_cong refl) (simp add: row)
  also have "\<dots> = map (\<lambda>i. T tc i False) (alpha tc)" by (rule map_alpha_upt)
  finally show ?thesis by (simp add: effort_tranchant_def)
qed

text \<open>
  C1.  For one span with \<open>L > 0\<close> and \<open>division \<ge> 1\<close> (any \<open>E\<close> and \<open>I\<close>, in
  particular positive ones), the constant-inertia constructor builds the structure; its
  focal ratios are \<open>phi = [0]\<close> and \<open>phi_prime = [0]\<close>, every entry of \<open>GAUCHE_DROITE\<close> is
  zero, and the final moment, rotation, deflection and shear surfaces are exactly the
  isostatic tables of its single span.
\<close>

theorem single_span_hyperstatic:
  assumes "0 < L" and "1 \<le> D"
  shows "\<exists>h tc. hyperstatique_const [L] [E] [I] D = Inr h \<and> travee_const L E I D = Inr tc \<and>
           hyp_phy h = [0] \<and> hyp_phy_prime h = [0] \<and>
           tr_G_D h = [[replicate (nat D + 1) 0, replicate (nat D + 1) 0]] \<and>
           Mu_total h = [moment_flechissant tc] \<and> W_total h = [rotation tc] \<and>
           V_total h = [fleche tc] \<and> T_total h = [effort_tranchant tc] \<and>
           M_flechissant h = Mu_total h \<and> W_rotaion h = W_total h \<and>
           V_fleche h = V_total h \<and> T_effort_tranchant h = T_total h"
proof -
  define tc where "tc = \<lparr>iso_E = E, iso_I = I, iso_I_varer = [], iso_pos_I_varier = [],
      iso_L = L, iso_division = D, Young = E, longueur = L, Inertie = I,
      tr_pos_I_varier = [], tr_I_varer = []\<rparr>"
  define h where "h = \<lparr>L_tr = [L], E_tr = [E], I_tr = [I], division = D, nombre_travee = 1,
      I_var = None, pos_I_var = None, iso_cache = [tc]\<rparr>"
  have ct: "travee_const L E I D = Inr tc"
    using assms by (simp add: travee_const_def isostatique_const_def tc_def)
  have ch: "hyperstatique_const [L] [E] [I] D = Inr h"
    using assms ct
    by (simp add: hyperstatique_const_def initialiser_donnees_def mise_en_place_def h_def)
  have n1: "nombre_travee h = 1" and ic: "iso_cache h = [tc]"
    and dv: "division h = iso_division tc" and it: "I_tr h \<noteq> []"
    by (simp_all add: h_def tc_def)
  have cst: "iso_I_varer tc = []" and pos: "0 < iso_L tc" "1 \<le> iso_division tc"
    using assms by (simp_all add: tc_def)
  note tb = single_tables[OF ic]
  have "length (positions h) = nat D + 1"
    using assms by (simp add: positions_def h_def)
  then have gd: "tr_G_D h = [[replicate (nat D + 1) 0, replicate (nat D + 1) 0]]"
    using single_G_D[OF n1] by simp
  show ?thesis
    using ch ct single_phy[OF n1] gd tb(2-5)
      single_M_flechissant[OF n1 ic dv pos] single_W_rotaion[OF n1 ic dv it cst pos(2)]
      single_V_fleche[OF n1 ic dv it cst pos(2)] single_T_effort_tranchant[OF n1 ic dv pos]
    by simp
qed

theorem single_span_hyperstatic_witness:
  "hyperstatique_const [5] [1] [1] 4 = Inr poutre_simple \<and>
   travee_const 5 1 1 4 = Inr travee_simple \<and>
   tr_G_D poutre_simple = [[[0, 0, 0, 0, 0], [0, 0, 0, 0, 0]]] \<and>
   M_flechissant poutre_simple = [moment_flechissant travee_simple] \<and>
   W_rotaion poutre_simple = [rotation travee_simple] \<and>
   V_fleche poutre_simple = [fleche travee_simple] \<and>
   T_effort_tranchant poutre_simple = [effort_tranchant travee_simple]"
proof -
  have ct: "travee_const 5 1 1 4 = Inr travee_simple"
    by (simp add: travee_const_def isostatique_const_def travee_simple_def)
  have ch: "hyperstatique_const [5] [1] [1] 4 = Inr poutre_simple"
    using ct
    by (simp add: hyperstatique_const_def initialiser_donnees_def mise_en_place_def
          poutre_simple_def)
  have h: "(0::real) < 5" "(1::int) \<le> 4" by simp_all
  from single_span_hyperstatic[OF h, of 1 1] ch ct
  have "hyp_phy poutre_simple = [0] \<and> hyp_phy_prime poutre_simple = [0] \<and>
        tr_G_D poutre_simple = [[replicate (nat 4 + 1) 0, replicate (nat 4 + 1) 0]] \<and>
        Mu_total poutre_simple = [moment_flechissant travee_simple] \<and>
        W_total poutre_simple = [rotation travee_simple] \<and>
        V_total poutre_simple = [fleche travee_simple] \<and>
        T_total poutre_simple = [effort_tranchant travee_simple] \<and>
        M_flechissant poutre_simple = Mu_total poutre_simple \<and>
        W_rotaion poutre_simple = W_total poutre_simple \<and>
        V_fleche poutre_simple = V_total poutre_simple \<and>
        T_effort_tranchant poutre_simple = T_total poutre_simple"
    by auto
  then show ?thesis using ch ct by (simp add: numeral_eq_Suc)
qed

end
